theory Spec2Isabelle
  imports Main "HOL-Library.AList"
begin

section \<open>Python values, exceptions and the database client\<close>

text \<open>
  The script \<^verbatim>\<open>fix_database.py\<close> talks to three MySQL nodes through
  \<^verbatim>\<open>mysql.connector\<close>. The connector is an external collaborator: the model takes
  it as a parameter (a \<open>client\<close>) that decides, from the calls made so far, whether the
  next call raises and what the fetches return. Every theorem below quantifies over it.

  Strings are byte strings (UTF-8); the non-ASCII marks the script prints are written as
  their UTF-8 bytes.
\<close>

text \<open>
  The values a row of a result set can hold. \<open>PBytes\<close> is there because the connector
  hands some metadata fields back as \<^verbatim>\<open>bytes\<close>/\<^verbatim>\<open>bytearray\<close>.
\<close>

datatype pyval = PStr string | PBytes string | PInt int | PNone

type_synonym row = "pyval list"

text \<open>
  Exceptions, by the three classes the \<^verbatim>\<open>except\<close> clauses of the script tell apart:
  \<^item> \<open>MySQLError errno text\<close>: an instance of \<^verbatim>\<open>mysql.connector.Error\<close>; \<open>text\<close> is
    \<^verbatim>\<open>str(e)\<close>, \<open>errno\<close> the server's error number (which the script never reads);
  \<^item> \<open>PyException text\<close>: any other instance of \<^verbatim>\<open>Exception\<close>;
  \<^item> \<open>PyBaseException text\<close>: an instance of \<^verbatim>\<open>BaseException\<close> outside
    \<^verbatim>\<open>Exception\<close> (\<^verbatim>\<open>KeyboardInterrupt\<close>, \<^verbatim>\<open>SystemExit\<close>).
\<close>

datatype py_exception =
    MySQLError int string
  | PyException string
  | PyBaseException string

text \<open>The per-node dictionary of lines 13-35; \<^verbatim>\<open>os.getenv\<close> gives \<^verbatim>\<open>None\<close> for an unset variable.\<close>

record config =
  host :: "string option"
  port :: int
  user :: "string option"
  password :: "string option"
  database :: "string option"

text \<open>The operations of the connector the script uses.\<close>

datatype call =
    Connect config
  | Cursor
  | Execute string
  | Fetchall
  | Fetchone
  | Commit
  | Lastrowid
  | CursorClose
  | ConnClose

text \<open>
  A client answers each call from the history of calls before it: \<open>raises h c\<close> is the
  exception call \<open>c\<close> raises after history \<open>h\<close> (\<open>None\<close>: it returns), and the three
  other fields are what \<^verbatim>\<open>fetchall()\<close>, \<^verbatim>\<open>fetchone()\<close> and \<^verbatim>\<open>lastrowid\<close> return.
\<close>

record client =
  raises :: "call list \<Rightarrow> call \<Rightarrow> py_exception option"
  fetchall_rows :: "call list \<Rightarrow> row list"
  fetchone_row :: "call list \<Rightarrow> row option"
  lastrowid_value :: "call list \<Rightarrow> int option"

text \<open>The world the script acts on: the calls made to the connector and the texts printed.\<close>

record world =
  calls :: "call list"
  printed :: "string list"

type_synonym 'a action = "world \<Rightarrow> (py_exception + 'a) \<times> world"

definition return :: "'a \<Rightarrow> 'a action" where
  "return a w = (Inr a, w)"

definition raise :: "py_exception \<Rightarrow> 'a action" where
  "raise e w = (Inl e, w)"

text \<open>Sequencing: an exception skips the rest.\<close>

definition seq :: "'a action \<Rightarrow> ('a \<Rightarrow> 'b action) \<Rightarrow> 'b action" where
  "seq m f w = (case m w of (Inl e, w') \<Rightarrow> (Inl e, w') | (Inr a, w') \<Rightarrow> f a w')"

text \<open>\<^verbatim>\<open>try: m except ... as e: h e\<close>; a handler that does not match re-raises.\<close>

definition try_except :: "'a action \<Rightarrow> (py_exception \<Rightarrow> 'a action) \<Rightarrow> 'a action" where
  "try_except m h w = (case m w of (Inl e, w') \<Rightarrow> h e w' | (Inr a, w') \<Rightarrow> (Inr a, w'))"

definition lift :: "py_exception + 'a \<Rightarrow> 'a action" where
  "lift r w = (r, w)"

text \<open>
  \<^verbatim>\<open>print\<close> writes to the standard output, which can refuse a text
  (\<^verbatim>\<open>UnicodeEncodeError\<close> when its encoding lacks a character, \<^verbatim>\<open>OSError\<close> when it is
  closed). A \<open>console\<close> says what \<^verbatim>\<open>print\<close> raises, from the texts printed so far and
  the text to print; a text that raises is not printed.
\<close>

type_synonym console = "string list \<Rightarrow> string \<Rightarrow> py_exception option"

definition print_to :: "console \<Rightarrow> string \<Rightarrow> unit action" where
  "print_to out s w =
     (case out (printed w) s of
        Some e \<Rightarrow> (Inl e, w)
      | None \<Rightarrow> (Inr (), \<lparr>calls = calls w, printed = printed w @ [s]\<rparr>))"

definition db_call :: "client \<Rightarrow> call \<Rightarrow> unit action" where
  "db_call cl c w =
     (case raises cl (calls w) c of
        Some e \<Rightarrow> (Inl e, \<lparr>calls = calls w @ [c], printed = printed w\<rparr>)
      | None \<Rightarrow> (Inr (), \<lparr>calls = calls w @ [c], printed = printed w\<rparr>))"

definition db_fetchall :: "client \<Rightarrow> row list action" where
  "db_fetchall cl w =
     (case raises cl (calls w) Fetchall of
        Some e \<Rightarrow> (Inl e, \<lparr>calls = calls w @ [Fetchall], printed = printed w\<rparr>)
      | None \<Rightarrow> (Inr (fetchall_rows cl (calls w)), \<lparr>calls = calls w @ [Fetchall], printed = printed w\<rparr>))"

definition db_fetchone :: "client \<Rightarrow> row option action" where
  "db_fetchone cl w =
     (case raises cl (calls w) Fetchone of
        Some e \<Rightarrow> (Inl e, \<lparr>calls = calls w @ [Fetchone], printed = printed w\<rparr>)
      | None \<Rightarrow> (Inr (fetchone_row cl (calls w)), \<lparr>calls = calls w @ [Fetchone], printed = printed w\<rparr>))"

definition db_lastrowid :: "client \<Rightarrow> int option action" where
  "db_lastrowid cl w =
     (case raises cl (calls w) Lastrowid of
        Some e \<Rightarrow> (Inl e, \<lparr>calls = calls w @ [Lastrowid], printed = printed w\<rparr>)
      | None \<Rightarrow> (Inr (lastrowid_value cl (calls w)), \<lparr>calls = calls w @ [Lastrowid], printed = printed w\<rparr>))"

section \<open>The Python operations the script applies to values\<close>

text \<open>A name between single quotes, as Python's messages show it.\<close>

definition quoted :: "string \<Rightarrow> string" where
  "quoted s = [CHR 0x27] @ s @ [CHR 0x27]"

text \<open>\<^verbatim>\<open>t[i]\<close> on a tuple, for the non-negative constants the script uses.\<close>

definition py_index :: "row \<Rightarrow> nat \<Rightarrow> py_exception + pyval" where
  "py_index t i =
     (if i < length t then Inr (t ! i) else Inl (PyException ''tuple index out of range''))"

text \<open>\<^verbatim>\<open>needle in s\<close> for two \<^verbatim>\<open>str\<close>: \<open>needle\<close> occurs in \<open>s\<close> as a contiguous run.\<close>

fun str_contains :: "string \<Rightarrow> string \<Rightarrow> bool" where
  "str_contains needle [] = (needle = [])"
| "str_contains needle (c # cs) =
     (take (length needle) (c # cs) = needle \<or> str_contains needle cs)"

text \<open>
  \<^verbatim>\<open>str.lower()\<close> on one character of a text: the capital letters \<^verbatim>\<open>A\<close> to \<^verbatim>\<open>Z\<close> are
  lowered, every other character is kept. Python lowers capital letters outside ASCII as
  well; of these only U+212A (to \<^verbatim>\<open>k\<close>) and U+0130 (to \<^verbatim>\<open>i\<close> followed by U+0307) give
  an ASCII letter, and neither can complete an occurrence of \<^verbatim>\<open>auto_increment\<close>, so the
  test of line 56 has the same outcome.
\<close>

definition lower_char :: "char \<Rightarrow> char" where
  "lower_char c =
     (case map_of (zip ''ABCDEFGHIJKLMNOPQRSTUVWXYZ'' ''abcdefghijklmnopqrstuvwxyz'') c of
        Some l \<Rightarrow> l
      | None \<Rightarrow> c)"

text \<open>\<^verbatim>\<open>v.lower()\<close>: \<^verbatim>\<open>str\<close> and \<^verbatim>\<open>bytes\<close> have the method, \<^verbatim>\<open>int\<close> and \<^verbatim>\<open>None\<close> do not.\<close>

fun py_lower :: "pyval \<Rightarrow> py_exception + pyval" where
  "py_lower (PStr s) = Inr (PStr (map lower_char s))"
| "py_lower (PBytes b) = Inr (PBytes (map lower_char b))"
| "py_lower (PInt i) = Inl (PyException (quoted ''int'' @ '' object has no attribute '' @ quoted ''lower''))"
| "py_lower PNone = Inl (PyException (quoted ''NoneType'' @ '' object has no attribute '' @ quoted ''lower''))"

text \<open>\<^verbatim>\<open>needle in v\<close> for a \<^verbatim>\<open>str\<close> needle: a \<^verbatim>\<open>TypeError\<close> unless \<open>v\<close> is a \<^verbatim>\<open>str\<close>.\<close>

fun py_in :: "string \<Rightarrow> pyval \<Rightarrow> py_exception + bool" where
  "py_in needle (PStr s) = Inr (str_contains needle s)"
| "py_in needle (PBytes b) = Inl (PyException (''a bytes-like object is required, not '' @ quoted ''str''))"
| "py_in needle (PInt i) = Inl (PyException (''argument of type '' @ quoted ''int'' @ '' is not iterable''))"
| "py_in needle PNone = Inl (PyException (''argument of type '' @ quoted ''NoneType'' @ '' is not iterable''))"

text \<open>\<^verbatim>\<open>str(n)\<close> for an \<^verbatim>\<open>int\<close>, and the \<^verbatim>\<open>{test_id}\<close> of an f-string.\<close>

fun str_nat :: "nat \<Rightarrow> string" where
  "str_nat n =
     (if n < 10 then [''0123456789'' ! n]
      else str_nat (n div 10) @ [''0123456789'' ! (n mod 10)])"

declare str_nat.simps [simp del]

definition str_int :: "int \<Rightarrow> string" where
  "str_int i = (if i < 0 then CHR ''-'' # str_nat (nat (- i)) else str_nat (nat i))"

definition format_rowid :: "int option \<Rightarrow> string" where
  "format_rowid v = (case v of None \<Rightarrow> ''None'' | Some i \<Rightarrow> str_int i)"

section \<open>The texts of the script\<close>

definition check_mark :: string where
  "check_mark = [CHR 0xE2, CHR 0x9C, CHR 0x93]"

definition cross_mark :: string where
  "cross_mark = [CHR 0xE2, CHR 0x9C, CHR 0x97]"

definition arrow_mark :: string where
  "arrow_mark = [CHR 0xE2, CHR 0x86, CHR 0x92]"

definition warning_mark :: string where
  "warning_mark = [CHR 0xE2, CHR 0x9A, CHR 0xA0]"

definition party_mark :: string where
  "party_mark = [CHR 0xF0, CHR 0x9F, CHR 0x8E, CHR 0x89]"

definition rule60 :: string where
  "rule60 = replicate 60 CHR ''=''"

definition describe_sql :: string where
  "describe_sql = ''DESCRIBE users''"

definition alter_pk_sql :: string where
  "alter_pk_sql = ''ALTER TABLE users MODIFY COLUMN id INT AUTO_INCREMENT PRIMARY KEY''"

definition alter_sql :: string where
  "alter_sql = ''ALTER TABLE users MODIFY COLUMN id INT AUTO_INCREMENT''"

definition show_create_sql :: string where
  "show_create_sql = ''SHOW CREATE TABLE users''"

text \<open>
  The triple-quoted literal of lines 89-92, with its line breaks, its indentation and the
  blank that ends its first line of SQL.
\<close>

definition insert_sql :: string where
  "insert_sql =
     [CHR 0x0A] @
     ''            INSERT INTO users (firstname, lastname, city, country, createdAt, updatedAt) '' @
     [CHR 0x0A] @
     ''            VALUES ('TestFix', 'User', 'TestCity', 'USA', NOW(), NOW())'' @
     [CHR 0x0A] @
     ''        ''"

definition delete_sql :: "int option \<Rightarrow> string" where
  "delete_sql test_id = ''DELETE FROM users WHERE id = '' @ format_rowid test_id"

section \<open>\<^verbatim>\<open>fix_node\<close> (lines 37-114)\<close>

text \<open>
  Line 53, \<^verbatim>\<open>[col for col in columns if col[0] == 'id']\<close>: the rows whose first field
  is the \<^verbatim>\<open>str\<close> \<^verbatim>\<open>'id'\<close>, in order; a row with no field raises \<^verbatim>\<open>IndexError\<close>.
\<close>

fun select_id_column :: "row list \<Rightarrow> py_exception + row list" where
  "select_id_column [] = Inr []"
| "select_id_column (col # cols) =
     (case py_index col 0 of
        Inl e \<Rightarrow> Inl e
      | Inr name \<Rightarrow>
          (case select_id_column cols of
             Inl e \<Rightarrow> Inl e
           | Inr rest \<Rightarrow> Inr (if name = PStr ''id'' then col # rest else rest)))"

text \<open>Line 55: \<^verbatim>\<open>id_column[0][5] if len(id_column[0]) > 5 else ''\<close>.\<close>

definition extra_of :: "row \<Rightarrow> pyval" where
  "extra_of r = (if length r > 5 then r ! 5 else PStr [])"

text \<open>Line 56: \<^verbatim>\<open>'auto_increment' in extra.lower()\<close>.\<close>

definition reports_auto_increment :: "row \<Rightarrow> py_exception + bool" where
  "reports_auto_increment r =
     (case py_lower (extra_of r) of
        Inl e \<Rightarrow> Inl e
      | Inr l \<Rightarrow> py_in ''auto_increment'' l)"

text \<open>
  Lines 53-62. The result says whether the routine is done: \<open>True\<close> stands for the
  \<^verbatim>\<open>return True\<close> of line 60.
\<close>

definition check_id_column_on :: "console \<Rightarrow> client \<Rightarrow> string \<Rightarrow> row list \<Rightarrow> bool action" where
  "check_id_column_on out cl node_name columns =
     seq (lift (select_id_column columns)) (\<lambda>id_column.
       case id_column of
         [] \<Rightarrow> return False
       | r # _ \<Rightarrow>
           seq (lift (reports_auto_increment r)) (\<lambda>already.
             if already then
               seq (print_to out (''   '' @ check_mark @ '' AUTO_INCREMENT already set on '' @ node_name)) (\<lambda>_.
               seq (db_call cl CursorClose) (\<lambda>_.
               seq (db_call cl ConnClose) (\<lambda>_.
               return True)))
             else
               seq (print_to out (''   '' @ cross_mark @ '' AUTO_INCREMENT NOT set on '' @ node_name)) (\<lambda>_.
               return False)))"

text \<open>
  Lines 66-74, the handler of the inner \<^verbatim>\<open>try\<close>: only a \<^verbatim>\<open>mysql.connector.Error\<close>
  is caught, and it is raised again unless its text contains \<^verbatim>\<open>1068\<close>.
\<close>

definition alter_handler_on :: "console \<Rightarrow> client \<Rightarrow> py_exception \<Rightarrow> unit action" where
  "alter_handler_on out cl e =
     (case e of
        MySQLError errno text \<Rightarrow>
          if str_contains ''1068'' text then
            seq (print_to out (''   '' @ arrow_mark @
                   '' Primary key already exists, trying without PRIMARY KEY clause...'')) (\<lambda>_.
            db_call cl (Execute alter_sql))
          else raise e
      | _ \<Rightarrow> raise e)"

text \<open>Lines 65-76.\<close>

definition apply_fix_on :: "console \<Rightarrow> client \<Rightarrow> unit action" where
  "apply_fix_on out cl =
     seq (print_to out ''2. Applying AUTO_INCREMENT fix...'') (\<lambda>_.
     seq (try_except (db_call cl (Execute alter_pk_sql)) (alter_handler_on out cl)) (\<lambda>_.
     seq (db_call cl Commit) (\<lambda>_.
     print_to out (''   '' @ check_mark @ '' ALTER TABLE executed successfully''))))"

text \<open>Line 81: \<^verbatim>\<open>cursor.fetchone()[1]\<close>; \<^verbatim>\<open>None\<close> is not subscriptable.\<close>

definition second_field :: "row option \<Rightarrow> py_exception + pyval" where
  "second_field r =
     (case r of
        None \<Rightarrow> Inl (PyException (quoted ''NoneType'' @ '' object is not subscriptable''))
      | Some t \<Rightarrow> py_index t 1)"

text \<open>Lines 79-85.\<close>

definition verify_fix_on :: "console \<Rightarrow> client \<Rightarrow> string \<Rightarrow> unit action" where
  "verify_fix_on out cl node_name =
     seq (print_to out ''3. Verifying fix...'') (\<lambda>_.
     seq (db_call cl (Execute show_create_sql)) (\<lambda>_.
     seq (db_fetchone cl) (\<lambda>fetched.
     seq (lift (second_field fetched)) (\<lambda>create_table.
     seq (lift (py_in ''AUTO_INCREMENT'' create_table)) (\<lambda>found.
       if found then print_to out (''   '' @ check_mark @ '' '' @ node_name @ '' fixed successfully!'')
       else print_to out (''   '' @ cross_mark @ '' Verification failed on '' @ node_name))))))"

text \<open>Lines 88-101.\<close>

definition test_insert_on :: "console \<Rightarrow> client \<Rightarrow> unit action" where
  "test_insert_on out cl =
     seq (print_to out ''4. Testing auto-increment with test insert...'') (\<lambda>_.
     seq (db_call cl (Execute insert_sql)) (\<lambda>_.
     seq (db_call cl Commit) (\<lambda>_.
     seq (db_lastrowid cl) (\<lambda>test_id.
     seq (print_to out (''   '' @ check_mark @ '' Test insert successful! Auto-generated ID: '' @
            format_rowid test_id)) (\<lambda>_.
     seq (db_call cl (Execute (delete_sql test_id))) (\<lambda>_.
     seq (db_call cl Commit) (\<lambda>_.
     print_to out (''   '' @ check_mark @ '' Test data cleaned up''))))))))"

text \<open>Lines 64-107: what follows the check when it did not return.\<close>

definition fix_and_test_on :: "console \<Rightarrow> client \<Rightarrow> string \<Rightarrow> bool action" where
  "fix_and_test_on out cl node_name =
     seq (apply_fix_on out cl) (\<lambda>_.
     seq (verify_fix_on out cl node_name) (\<lambda>_.
     seq (test_insert_on out cl) (\<lambda>_.
     seq (db_call cl CursorClose) (\<lambda>_.
     seq (db_call cl ConnClose) (\<lambda>_.
     seq (print_to out (check_mark @ '' '' @ node_name @ '' is ready!'')) (\<lambda>_.
     return True))))))"

text \<open>Lines 44-107, the body of the outer \<^verbatim>\<open>try\<close>.\<close>

definition fix_node_try_on :: "console \<Rightarrow> client \<Rightarrow> string \<Rightarrow> config \<Rightarrow> bool action" where
  "fix_node_try_on out cl node_name cfg =
     seq (db_call cl (Connect cfg)) (\<lambda>_.
     seq (db_call cl Cursor) (\<lambda>_.
     seq (print_to out ''1. Checking current table structure...'') (\<lambda>_.
     seq (db_call cl (Execute describe_sql)) (\<lambda>_.
     seq (db_fetchall cl) (\<lambda>columns.
     seq (check_id_column_on out cl node_name columns) (\<lambda>done.
       if done then return True else fix_and_test_on out cl node_name))))))"

text \<open>
  Lines 109-114: \<^verbatim>\<open>except mysql.connector.Error\<close>, then \<^verbatim>\<open>except Exception\<close>. An
  exception outside \<^verbatim>\<open>Exception\<close> matches neither clause and goes on to the caller.
\<close>

definition fix_node_except_on :: "console \<Rightarrow> string \<Rightarrow> py_exception \<Rightarrow> bool action" where
  "fix_node_except_on out node_name e =
     (case e of
        MySQLError errno text \<Rightarrow>
          seq (print_to out (cross_mark @ '' Error on '' @ node_name @ '': '' @ text)) (\<lambda>_.
          return False)
      | PyException text \<Rightarrow>
          seq (print_to out (cross_mark @ '' Unexpected error on '' @ node_name @ '': '' @ text)) (\<lambda>_.
          return False)
      | PyBaseException text \<Rightarrow> raise e)"

definition fix_node_on :: "console \<Rightarrow> client \<Rightarrow> string \<Rightarrow> config \<Rightarrow> bool action" where
  "fix_node_on out cl node_name cfg =
     seq (print_to out ([CHR 0x0A] @ rule60)) (\<lambda>_.
     seq (print_to out (''Fixing '' @ node_name)) (\<lambda>_.
     seq (print_to out rule60) (\<lambda>_.
     try_except (fix_node_try_on out cl node_name cfg) (fix_node_except_on out node_name))))"

section \<open>\<^verbatim>\<open>main\<close> (lines 116-153)\<close>

text \<open>
  The dictionary \<^verbatim>\<open>nodes\<close> of lines 13-35, in insertion order; the three configurations
  come from the environment.
\<close>

definition nodes :: "config \<Rightarrow> config \<Rightarrow> config \<Rightarrow> (string \<times> config) list" where
  "nodes c0 c1 c2 =
     [(''Central (Node 0)'', c0), (''Partition 1 (Node 1)'', c1), (''Partition 2 (Node 2)'', c2)]"

text \<open>Truth value of an \<^verbatim>\<open>os.getenv\<close> result: \<^verbatim>\<open>None\<close> and the empty string are false.\<close>

definition truthy :: "string option \<Rightarrow> bool" where
  "truthy v = (case v of None \<Rightarrow> False | Some s \<Rightarrow> s \<noteq> [])"

text \<open>Line 127: \<^verbatim>\<open>all([config['host'], config['user'], config['password'], config['database']])\<close>.\<close>

definition config_complete :: "config \<Rightarrow> bool" where
  "config_complete cfg =
     (truthy (host cfg) \<and> truthy (user cfg) \<and> truthy (password cfg) \<and> truthy (database cfg))"

text \<open>
  Lines 126-132, the body of the loop. The dictionary \<^verbatim>\<open>results\<close> is an association
  list in insertion order; \<^verbatim>\<open>results[k] = v\<close> is \<open>AList.update\<close>, which replaces the
  value of a key that is there and appends a new key.
\<close>

definition node_step_on ::
  "console \<Rightarrow> client \<Rightarrow> string \<times> config \<Rightarrow> (string \<times> bool) list \<Rightarrow> (string \<times> bool) list action" where
  "node_step_on out cl item results =
     (case item of (node_name, cfg) \<Rightarrow>
        if \<not> config_complete cfg then
          seq (print_to out ([CHR 0x0A] @ warning_mark @ '' Skipping '' @ node_name @
                 '' - incomplete configuration'')) (\<lambda>_.
          return (AList.update node_name False results))
        else
          seq (fix_node_on out cl node_name cfg) (\<lambda>success.
          return (AList.update node_name success results)))"

text \<open>Lines 125-132, the loop over \<^verbatim>\<open>nodes.items()\<close>.\<close>

fun run_nodes_on ::
  "console \<Rightarrow> client \<Rightarrow> (string \<times> config) list \<Rightarrow> (string \<times> bool) list \<Rightarrow> (string \<times> bool) list action" where
  "run_nodes_on out cl [] results = return results"
| "run_nodes_on out cl (item # items) results =
     seq (node_step_on out cl item results) (\<lambda>results'. run_nodes_on out cl items results')"

text \<open>Line 139: \<^verbatim>\<open>sum(1 for success in results.values() if success)\<close>; line 140.\<close>

definition success_count :: "(string \<times> bool) list \<Rightarrow> nat" where
  "success_count results = length (filter (\<lambda>success. success) (map snd results))"

definition total_count :: "(string \<times> bool) list \<Rightarrow> nat" where
  "total_count results = length results"

text \<open>Lines 143-144.\<close>

definition status_line :: "string \<times> bool \<Rightarrow> string" where
  "status_line item =
     (case item of (node_name, success) \<Rightarrow>
        node_name @ '': '' @
        (if success then check_mark @ '' FIXED'' else cross_mark @ '' FAILED''))"

fun print_all_on :: "console \<Rightarrow> string list \<Rightarrow> unit action" where
  "print_all_on out [] = return ()"
| "print_all_on out (l # ls) = seq (print_to out l) (\<lambda>_. print_all_on out ls)"

text \<open>Line 146.\<close>

definition total_line :: "(string \<times> bool) list \<Rightarrow> string" where
  "total_line results =
     [CHR 0x0A] @ ''Total: '' @ str_nat (success_count results) @ ''/'' @
     str_nat (total_count results) @ '' nodes fixed successfully''"

text \<open>Lines 135-153.\<close>

definition summary_on :: "console \<Rightarrow> (string \<times> bool) list \<Rightarrow> unit action" where
  "summary_on out results =
     seq (print_to out ([CHR 0x0A] @ rule60)) (\<lambda>_.
     seq (print_to out ''SUMMARY'') (\<lambda>_.
     seq (print_to out rule60) (\<lambda>_.
     seq (print_all_on out (map status_line results)) (\<lambda>_.
     seq (print_to out (total_line results)) (\<lambda>_.
       if success_count results = total_count results then
         seq (print_to out ([CHR 0x0A] @ party_mark @ '' All nodes fixed! You can now run Case #3.'')) (\<lambda>_.
         print_to out (''   Restart your application if it'' @ [CHR 0x27] @
                  ''s running, then test again.''))
       else
         seq (print_to out ([CHR 0x0A] @ warning_mark @
                '' Some nodes failed. Check error messages above.'')) (\<lambda>_.
         print_to out ''   You may need to run the SQL commands manually.''))))))"

text \<open>
  Lines 116-153. The function returns \<^verbatim>\<open>None\<close>; the model hands back \<^verbatim>\<open>results\<close>
  so that theorems can speak of it.
\<close>

definition main_on :: "console \<Rightarrow> client \<Rightarrow> (string \<times> config) list \<Rightarrow> (string \<times> bool) list action" where
  "main_on out cl node_items =
     seq (print_to out rule60) (\<lambda>_.
     seq (print_to out ''DATABASE SCHEMA FIX - AUTO_INCREMENT'') (\<lambda>_.
     seq (print_to out rule60) (\<lambda>_.
     seq (print_to out ([CHR 0x0A] @ ''This script will fix the AUTO_INCREMENT issue on all 3 nodes'')) (\<lambda>_.
     seq (print_to out (''that'' @ [CHR 0x27] @ ''s preventing Case #3 from working.'' @ [CHR 0x0A])) (\<lambda>_.
     seq (run_nodes_on out cl node_items []) (\<lambda>results.
     seq (summary_on out results) (\<lambda>_.
     return results)))))))"

section \<open>The script on a console that accepts every text\<close>

text \<open>
  Most of what follows is about what the script asks of the database, in runs where
  \<^verbatim>\<open>print\<close> raises nothing. The source's names stand for the script on such a console.
\<close>

definition accepting :: console where
  "accepting h s = None"

abbreviation print :: "string \<Rightarrow> unit action" where
  "print \<equiv> print_to accepting"

abbreviation check_id_column :: "client \<Rightarrow> string \<Rightarrow> row list \<Rightarrow> bool action" where
  "check_id_column \<equiv> check_id_column_on accepting"

abbreviation alter_handler :: "client \<Rightarrow> py_exception \<Rightarrow> unit action" where
  "alter_handler \<equiv> alter_handler_on accepting"

abbreviation apply_fix :: "client \<Rightarrow> unit action" where
  "apply_fix \<equiv> apply_fix_on accepting"

abbreviation verify_fix :: "client \<Rightarrow> string \<Rightarrow> unit action" where
  "verify_fix \<equiv> verify_fix_on accepting"

abbreviation test_insert :: "client \<Rightarrow> unit action" where
  "test_insert \<equiv> test_insert_on accepting"

abbreviation fix_and_test :: "client \<Rightarrow> string \<Rightarrow> bool action" where
  "fix_and_test \<equiv> fix_and_test_on accepting"

abbreviation fix_node_try :: "client \<Rightarrow> string \<Rightarrow> config \<Rightarrow> bool action" where
  "fix_node_try \<equiv> fix_node_try_on accepting"

abbreviation fix_node_except :: "string \<Rightarrow> py_exception \<Rightarrow> bool action" where
  "fix_node_except \<equiv> fix_node_except_on accepting"

abbreviation fix_node :: "client \<Rightarrow> string \<Rightarrow> config \<Rightarrow> bool action" where
  "fix_node \<equiv> fix_node_on accepting"

abbreviation node_step ::
  "client \<Rightarrow> string \<times> config \<Rightarrow> (string \<times> bool) list \<Rightarrow> (string \<times> bool) list action" where
  "node_step \<equiv> node_step_on accepting"

abbreviation run_nodes ::
  "client \<Rightarrow> (string \<times> config) list \<Rightarrow> (string \<times> bool) list \<Rightarrow> (string \<times> bool) list action" where
  "run_nodes \<equiv> run_nodes_on accepting"

abbreviation print_all :: "string list \<Rightarrow> unit action" where
  "print_all \<equiv> print_all_on accepting"

abbreviation summary :: "(string \<times> bool) list \<Rightarrow> unit action" where
  "summary \<equiv> summary_on accepting"

abbreviation main :: "client \<Rightarrow> (string \<times> config) list \<Rightarrow> (string \<times> bool) list action" where
  "main \<equiv> main_on accepting"

section \<open>Predicates on actions and clients\<close>

text \<open>\<open>throws E m\<close>: every exception that leaves \<open>m\<close> satisfies \<open>E\<close>.\<close>

definition throws :: "(py_exception \<Rightarrow> bool) \<Rightarrow> 'a action \<Rightarrow> bool" where
  "throws E m = (\<forall>w e. fst (m w) = Inl e \<longrightarrow> E e)"

text \<open>
  The exceptions the body of the routine can meet: one raised by a call of the client, or
  one that the script's own indexing, \<^verbatim>\<open>.lower()\<close> or \<^verbatim>\<open>in\<close> raises (always an
  \<^verbatim>\<open>Exception\<close>).
\<close>

definition from_client :: "client \<Rightarrow> py_exception \<Rightarrow> bool" where
  "from_client cl e = ((\<exists>h c. raises cl h c = Some e) \<or> (\<exists>t. e = PyException t))"

text \<open>A client none of whose calls raises outside the \<^verbatim>\<open>Exception\<close> hierarchy.\<close>

definition raises_only_Exception :: "client \<Rightarrow> bool" where
  "raises_only_Exception cl = (\<forall>h c t. raises cl h c \<noteq> Some (PyBaseException t))"

text \<open>A world with more calls and more printed texts.\<close>

definition extend :: "world \<Rightarrow> call list \<Rightarrow> string list \<Rightarrow> world" where
  "extend w cs ps = \<lparr>calls = calls w @ cs, printed = printed w @ ps\<rparr>"

text \<open>
  \<open>emits C L m\<close>: \<open>m\<close> only appends to the calls and to the printed texts, every call it
  appends satisfies \<open>C\<close> and every text \<open>L\<close>.
\<close>

definition emits :: "(call \<Rightarrow> bool) \<Rightarrow> (string \<Rightarrow> bool) \<Rightarrow> 'a action \<Rightarrow> bool" where
  "emits C L m =
     (\<forall>w. \<exists>cs ps. snd (m w) = extend w cs ps
        \<and> list_all C cs \<and> list_all L ps)"

text \<open>
  What lines 45-51 read: the rows \<^verbatim>\<open>fetchall()\<close> returns for \<^verbatim>\<open>DESCRIBE users\<close> when
  the routine starts after history \<open>h\<close>, if connecting, opening the cursor, the statement and
  the fetch all return.
\<close>

definition describe_output :: "client \<Rightarrow> config \<Rightarrow> call list \<Rightarrow> row list option" where
  "describe_output cl cfg h =
     (if raises cl h (Connect cfg) = None
         \<and> raises cl (h @ [Connect cfg]) Cursor = None
         \<and> raises cl (h @ [Connect cfg, Cursor]) (Execute describe_sql) = None
         \<and> raises cl (h @ [Connect cfg, Cursor, Execute describe_sql]) Fetchall = None
      then Some (fetchall_rows cl (h @ [Connect cfg, Cursor, Execute describe_sql]))
      else None)"

section \<open>Concrete nodes\<close>

text \<open>
  A client whose answers do not depend on the history: \<open>fails c\<close> is what call \<open>c\<close>
  raises, \<open>cols\<close> the rows of \<^verbatim>\<open>DESCRIBE users\<close>, \<open>created\<close> the row of
  \<^verbatim>\<open>SHOW CREATE TABLE users\<close> and \<open>rowid\<close> the value of \<^verbatim>\<open>lastrowid\<close>.
\<close>

definition scripted_client ::
  "(call \<Rightarrow> py_exception option) \<Rightarrow> row list \<Rightarrow> row option \<Rightarrow> int option \<Rightarrow> client" where
  "scripted_client fails cols created rowid =
     \<lparr>raises = (\<lambda>h c. fails c), fetchall_rows = (\<lambda>h. cols),
      fetchone_row = (\<lambda>h. created), lastrowid_value = (\<lambda>h. rowid)\<rparr>"

definition cfg0 :: config where
  "cfg0 = \<lparr>host = Some ''10.0.0.10'', port = 3306, user = Some ''admin'',
            password = Some ''secret'', database = Some ''appdb''\<rparr>"

definition world0 :: world where
  "world0 = \<lparr>calls = [], printed = []\<rparr>"

text \<open>\<^verbatim>\<open>DESCRIBE users\<close> before and after the fix.\<close>

definition unfixed_columns :: "row list" where
  "unfixed_columns =
     [[PStr ''id'', PBytes ''int'', PStr ''NO'', PStr [], PNone, PStr []],
      [PStr ''firstname'', PBytes ''varchar(40)'', PStr ''YES'', PStr [], PNone, PStr []]]"

definition fixed_columns :: "row list" where
  "fixed_columns =
     [[PStr ''id'', PBytes ''int'', PStr ''NO'', PStr ''PRI'', PNone, PStr ''auto_increment''],
      [PStr ''firstname'', PBytes ''varchar(40)'', PStr ''YES'', PStr [], PNone, PStr []]]"

definition created_with_marker :: "row option" where
  "created_with_marker =
     Some [PStr ''users'', PStr ''CREATE TABLE users (id int NOT NULL AUTO_INCREMENT, PRIMARY KEY (id))'']"

definition created_without_marker :: "row option" where
  "created_without_marker = Some [PStr ''users'', PStr ''CREATE TABLE users (id int NOT NULL)'']"

text \<open>The operator presses Ctrl-C while \<^verbatim>\<open>connect\<close> waits for the host.\<close>

definition interrupted_client :: client where
  "interrupted_client =
     scripted_client
       (\<lambda>c. case c of Connect _ \<Rightarrow> Some (PyBaseException ''KeyboardInterrupt'') | _ \<Rightarrow> None)
       [] None None"

text \<open>A host that refuses the connection.\<close>

definition refusing_client :: client where
  "refusing_client =
     scripted_client
       (\<lambda>c. case c of
          Connect _ \<Rightarrow> Some (MySQLError 2003 ''2003: Can't connect to MySQL server on 10.0.0.10:3306'')
        | _ \<Rightarrow> None)
       [] None None"

text \<open>
  The calls the routine may make for a node with configuration \<open>cfg\<close>: a connection with
  that configuration, and \<^verbatim>\<open>execute\<close> with one of the texts of lines 50-99.
\<close>

definition routine_call :: "config \<Rightarrow> call \<Rightarrow> bool" where
  "routine_call cfg c =
     (case c of
        Connect cfg' \<Rightarrow> cfg' = cfg
      | Execute s \<Rightarrow>
          s \<in> {describe_sql, alter_pk_sql, alter_sql, show_create_sql, insert_sql}
          \<or> (\<exists>test_id. s = delete_sql test_id)
      | _ \<Rightarrow> True)"

text \<open>The three texts every run of \<^verbatim>\<open>fix_node\<close> prints first (lines 39-41).\<close>

definition banner :: "string \<Rightarrow> string list" where
  "banner node_name = [[CHR 0x0A] @ rule60, ''Fixing '' @ node_name, rule60]"

text \<open>The calls of lines 45-51.\<close>

definition inspect_calls :: "config \<Rightarrow> call list" where
  "inspect_calls cfg = [Connect cfg, Cursor, Execute describe_sql, Fetchall]"

text \<open>A node that is already fixed but drops the connection before it is closed.\<close>

definition lost_on_close_client :: client where
  "lost_on_close_client =
     scripted_client
       (\<lambda>c. case c of
          ConnClose \<Rightarrow> Some (MySQLError 2013 ''2013: Lost connection to MySQL server during query'')
        | _ \<Rightarrow> None)
       fixed_columns created_with_marker (Some 7)"

text \<open>A node that answers every call; its table is, or is not yet, fixed.\<close>

definition fixed_client :: client where
  "fixed_client = scripted_client (\<lambda>c. None) fixed_columns created_with_marker (Some 7)"

definition unfixed_client :: client where
  "unfixed_client = scripted_client (\<lambda>c. None) unfixed_columns created_with_marker (Some 7)"

text \<open>\<^verbatim>\<open>DESCRIBE\<close> output without a row for \<^verbatim>\<open>id\<close>, and with a truncated one.\<close>

definition no_id_client :: client where
  "no_id_client =
     scripted_client (\<lambda>c. None)
       [[PStr ''firstname'', PBytes ''varchar(40)'', PStr ''YES'', PStr [], PNone, PStr []]]
       created_with_marker (Some 7)"

definition short_row_client :: client where
  "short_row_client =
     scripted_client (\<lambda>c. None) [[PStr ''id'', PBytes ''int'']] created_with_marker (Some 7)"

section \<open>The statements as the specification lists them\<close>

text \<open>
  These six definitions follow the words of the specification (section 6, "Statements
  issued"), not the source; they are there to be compared with the texts of the script.
\<close>

definition spec_describe_sql :: string where
  "spec_describe_sql = ''DESCRIBE users''"

definition spec_alter_pk_sql :: string where
  "spec_alter_pk_sql = ''ALTER TABLE users MODIFY COLUMN id INT AUTO_INCREMENT PRIMARY KEY''"

definition spec_alter_sql :: string where
  "spec_alter_sql = ''ALTER TABLE users MODIFY COLUMN id INT AUTO_INCREMENT''"

definition spec_show_create_sql :: string where
  "spec_show_create_sql = ''SHOW CREATE TABLE users''"

definition spec_insert_sql :: string where
  "spec_insert_sql =
     ''INSERT INTO users (firstname, lastname, city, country, createdAt, updatedAt) VALUES ('TestFix','User','TestCity','USA', NOW(), NOW())''"

definition spec_delete_sql :: "string \<Rightarrow> string" where
  "spec_delete_sql generated_id = ''DELETE FROM users WHERE id = '' @ generated_id"

text \<open>A text without its blanks and line breaks.\<close>

definition squeeze :: "string \<Rightarrow> string" where
  "squeeze s = filter (\<lambda>c. c \<noteq> CHR '' '' \<and> c \<noteq> CHR 0x0A) s"

text \<open>
  A table whose \<^verbatim>\<open>id\<close> column has a plain index and holds the value 1068 twice: the
  \<^verbatim>\<open>ALTER\<close> with \<^verbatim>\<open>PRIMARY KEY\<close> fails with error 1062, whose text quotes the
  duplicate value; the \<^verbatim>\<open>ALTER\<close> without the clause is accepted.
\<close>

definition duplicate_entry_error :: py_exception where
  "duplicate_entry_error =
     MySQLError 1062
       (''1062 (23000): Duplicate entry '1068' for key 'users.PRIMARY'' @ [CHR 0x27])"

definition indexed_columns :: "row list" where
  "indexed_columns =
     [[PStr ''id'', PBytes ''int'', PStr ''YES'', PStr ''MUL'', PNone, PStr []],
      [PStr ''firstname'', PBytes ''varchar(40)'', PStr ''YES'', PStr [], PNone, PStr []]]"

definition duplicate_1068_client :: client where
  "duplicate_1068_client =
     scripted_client
       (\<lambda>c. if c = Execute alter_pk_sql then Some duplicate_entry_error else None)
       indexed_columns created_with_marker (Some 1069)"

text \<open>
  A node on which every statement is accepted but whose table definition, read back after
  the \<^verbatim>\<open>ALTER\<close>, does not show \<^verbatim>\<open>AUTO_INCREMENT\<close>.
\<close>

definition unverified_client :: client where
  "unverified_client =
     scripted_client (\<lambda>c. None) unfixed_columns created_without_marker (Some 7)"

text \<open>A call that is not a connection with an incomplete configuration.\<close>

definition connects_complete :: "call \<Rightarrow> bool" where
  "connects_complete c = (case c of Connect cfg \<Rightarrow> config_complete cfg | _ \<Rightarrow> True)"

text \<open>The texts of lines 117-121 and of lines 135-153.\<close>

definition opening_lines :: "string list" where
  "opening_lines =
     [rule60, ''DATABASE SCHEMA FIX - AUTO_INCREMENT'', rule60,
      [CHR 0x0A] @ ''This script will fix the AUTO_INCREMENT issue on all 3 nodes'',
      ''that'' @ [CHR 0x27] @ ''s preventing Case #3 from working.'' @ [CHR 0x0A]]"

definition closing_lines :: "(string \<times> bool) list \<Rightarrow> string list" where
  "closing_lines results =
     (if success_count results = total_count results then
        [[CHR 0x0A] @ party_mark @ '' All nodes fixed! You can now run Case #3.'',
         ''   Restart your application if it'' @ [CHR 0x27] @ ''s running, then test again.'']
      else
        [[CHR 0x0A] @ warning_mark @ '' Some nodes failed. Check error messages above.'',
         ''   You may need to run the SQL commands manually.''])"

definition summary_lines :: "(string \<times> bool) list \<Rightarrow> string list" where
  "summary_lines results =
     [[CHR 0x0A] @ rule60, ''SUMMARY'', rule60] @ map status_line results
       @ [total_line results] @ closing_lines results"

text \<open>
  Three nodes: the first needs the fix and accepts it, the second has no password in the
  environment, the third refuses the connection.
\<close>

definition cfg1 :: config where
  "cfg1 = \<lparr>host = Some ''10.0.0.11'', port = 3306, user = Some ''admin'',
            password = None, database = Some ''appdb''\<rparr>"

definition cfg2 :: config where
  "cfg2 = \<lparr>host = Some ''10.0.0.12'', port = 3306, user = Some ''admin'',
            password = Some ''secret'', database = Some ''appdb''\<rparr>"

definition outage_client :: client where
  "outage_client =
     scripted_client
       (\<lambda>c. if c = Connect cfg2
             then Some (MySQLError 2003 ''2003: Can't connect to MySQL server on 10.0.0.12:3306'')
             else None)
       unfixed_columns created_with_marker (Some 7)"

text \<open>Lines 87-107: what the routine does once the verification has printed its verdict.\<close>

definition after_verification_on :: "console \<Rightarrow> client \<Rightarrow> string \<Rightarrow> bool action" where
  "after_verification_on out cl node_name =
     seq (test_insert_on out cl) (\<lambda>_.
     seq (db_call cl CursorClose) (\<lambda>_.
     seq (db_call cl ConnClose) (\<lambda>_.
     seq (print_to out (check_mark @ '' '' @ node_name @ '' is ready!'')) (\<lambda>_.
     return True))))"

abbreviation after_verification :: "client \<Rightarrow> string \<Rightarrow> bool action" where
  "after_verification \<equiv> after_verification_on accepting"

text \<open>
  \<open>blind m\<close>: what \<open>m\<close> returns and which calls it makes depend on the calls made so far
  only, not on what has been printed.
\<close>

definition blind :: "'a action \<Rightarrow> bool" where
  "blind m =
     (\<forall>w w'. calls w = calls w' \<longrightarrow>
        fst (m w) = fst (m w') \<and> calls (snd (m w)) = calls (snd (m w')))"

text \<open>
  A standard output whose encoding has none of the marks the script prints (a legacy code
  page): \<^verbatim>\<open>print\<close> raises \<^verbatim>\<open>UnicodeEncodeError\<close> on a text that holds one.
\<close>

definition marks_refused :: console where
  "marks_refused h s =
     (if list_ex (\<lambda>mark. str_contains mark s)
           [check_mark, cross_mark, arrow_mark, warning_mark, party_mark]
      then Some (PyException (quoted ''charmap'' @ '' codec can't encode character''))
      else None)"

text \<open>
  \<open>calls_ok C h cs\<close>: each call of \<open>cs\<close>, made after \<open>h\<close> and the calls before it,
  satisfies \<open>C\<close> at the history it is made in. \<open>issues C m\<close>: \<open>m\<close> only appends to the
  world, and the calls it appends are such.
\<close>

fun calls_ok :: "(call list \<Rightarrow> call \<Rightarrow> bool) \<Rightarrow> call list \<Rightarrow> call list \<Rightarrow> bool" where
  "calls_ok C h [] = True"
| "calls_ok C h (c # cs) = (C h c \<and> calls_ok C (h @ [c]) cs)"

definition issues :: "(call list \<Rightarrow> call \<Rightarrow> bool) \<Rightarrow> 'a action \<Rightarrow> bool" where
  "issues C m =
     (\<forall>w. \<exists>cs ps. snd (m w) = extend w cs ps \<and> calls_ok C (calls w) cs)"

text \<open>
  What the routine passes to \<^verbatim>\<open>cursor.execute\<close> (lines 50-99), at the history \<open>h\<close> it is
  passed in: one of five fixed texts, or the \<^verbatim>\<open>DELETE\<close> built from the value that
  \<^verbatim>\<open>cursor.lastrowid\<close> returned when it was read, last before the statement and right after
  the \<^verbatim>\<open>INSERT\<close> and its commit.
\<close>

definition statement_of_routine :: "client \<Rightarrow> call list \<Rightarrow> call \<Rightarrow> bool" where
  "statement_of_routine cl h c =
     (case c of
        Execute s \<Rightarrow>
          s \<in> {describe_sql, alter_pk_sql, alter_sql, show_create_sql, insert_sql}
          \<or> (\<exists>h'. h = h' @ [Execute insert_sql, Commit, Lastrowid]
                 \<and> raises cl (h' @ [Execute insert_sql, Commit]) Lastrowid = None
                 \<and> s = delete_sql (lastrowid_value cl (h' @ [Execute insert_sql, Commit])))
      | _ \<Rightarrow> True)"

section \<open>Properties of the Python operations\<close>

lemma str_contains_needs_head: "str_contains (c # needle) s \<Longrightarrow> c \<in> set s"
  by (induction s) (auto split: if_splits)

lemma lower_char_example: "map lower_char ''Auto_Increment Z@['' = ''auto_increment z@[''"
  by (simp add: lower_char_def)

lemma str_int_example: "str_int 1068 = ''1068'' \<and> str_int (-7) = ''-7'' \<and> str_int 0 = ''0''"
  by (simp add: str_int_def str_nat.simps)

section \<open>Which exceptions leave an action\<close>

lemma throws_return: "throws E (return a)"
  by (simp add: throws_def return_def)

lemma throws_print: "throws E (print s)"
  by (simp add: throws_def print_to_def accepting_def)

lemma throws_raise: "E e \<Longrightarrow> throws E (raise e)"
  by (simp add: throws_def raise_def)

lemma throws_lift: "(\<And>e. r = Inl e \<Longrightarrow> E e) \<Longrightarrow> throws E (lift r)"
  by (simp add: throws_def lift_def)

lemma throwsD: "throws E m \<Longrightarrow> m w = (Inl e, w') \<Longrightarrow> E e"
  unfolding throws_def by (metis fst_conv)

lemma throws_seq:
  assumes m: "throws E m" and f: "\<And>a. throws E (f a)"
  shows "throws E (seq m f)"
  unfolding throws_def
proof (intro allI impI)
  fix w e
  assume raised: "fst (seq m f w) = Inl e"
  obtain r w' where mw: "m w = (r, w')"
    by (cases "m w")
  show "E e"
  proof (cases r)
    case (Inl e')
    with mw raised have "e' = e" by (simp add: seq_def)
    with m mw Inl show ?thesis by (auto dest: throwsD)
  next
    case (Inr a)
    with mw raised have "fst (f a w') = Inl e" by (simp add: seq_def)
    with f [of a] show ?thesis by (auto simp: throws_def)
  qed
qed

lemma throws_try_except:
  assumes m: "throws E' m" and h: "\<And>e. E' e \<Longrightarrow> throws E (h e)"
  shows "throws E (try_except m h)"
  unfolding throws_def
proof (intro allI impI)
  fix w e
  assume raised: "fst (try_except m h w) = Inl e"
  obtain r w' where mw: "m w = (r, w')"
    by (cases "m w")
  show "E e"
  proof (cases r)
    case (Inl e')
    with mw raised have "fst (h e' w') = Inl e" by (simp add: try_except_def)
    moreover from m mw Inl have "E' e'" by (auto dest: throwsD)
    ultimately show ?thesis using h [of e'] by (auto simp: throws_def)
  next
    case (Inr a)
    with mw raised show ?thesis by (simp add: try_except_def)
  qed
qed

lemma throws_db_call: "throws (from_client cl) (db_call cl c)"
  by (auto simp: throws_def db_call_def from_client_def split: option.splits)

lemma throws_db_fetchall: "throws (from_client cl) (db_fetchall cl)"
  by (auto simp: throws_def db_fetchall_def from_client_def split: option.splits)

lemma throws_db_fetchone: "throws (from_client cl) (db_fetchone cl)"
  by (auto simp: throws_def db_fetchone_def from_client_def split: option.splits)

lemma throws_db_lastrowid: "throws (from_client cl) (db_lastrowid cl)"
  by (auto simp: throws_def db_lastrowid_def from_client_def split: option.splits)

lemma py_index_exception: "py_index t i = Inl e \<Longrightarrow> from_client cl e"
  by (auto simp: py_index_def from_client_def split: if_splits)

lemma py_in_exception: "py_in needle v = Inl e \<Longrightarrow> from_client cl e"
  by (cases v) (auto simp: from_client_def)

lemma py_lower_exception: "py_lower v = Inl e \<Longrightarrow> from_client cl e"
  by (cases v) (auto simp: from_client_def)

lemma select_id_column_exception: "select_id_column cols = Inl e \<Longrightarrow> from_client cl e"
  by (induction cols) (auto split: sum.splits dest: py_index_exception)

lemma reports_auto_increment_exception: "reports_auto_increment r = Inl e \<Longrightarrow> from_client cl e"
  by (auto simp: reports_auto_increment_def split: sum.splits dest: py_lower_exception py_in_exception)

lemma second_field_exception: "second_field r = Inl e \<Longrightarrow> from_client cl e"
  by (auto simp: second_field_def from_client_def split: option.splits dest: py_index_exception)

lemmas throws_intros =
  throws_return throws_print throws_seq throws_db_call throws_db_fetchall throws_db_fetchone
  throws_db_lastrowid

lemma throws_check_id_column: "throws (from_client cl) (check_id_column cl node_name columns)"
  unfolding check_id_column_on_def
  by (auto intro!: throws_intros throws_lift split: list.splits
      dest: select_id_column_exception reports_auto_increment_exception)

lemma throws_alter_handler: "from_client cl e \<Longrightarrow> throws (from_client cl) (alter_handler cl e)"
  unfolding alter_handler_on_def
  by (auto intro!: throws_intros throws_raise split: py_exception.splits)

lemma throws_apply_fix: "throws (from_client cl) (apply_fix cl)"
  unfolding apply_fix_on_def
  by (intro throws_intros throws_try_except [where E' = "from_client cl"] throws_alter_handler)

lemma throws_verify_fix: "throws (from_client cl) (verify_fix cl node_name)"
  unfolding verify_fix_on_def
  by (auto intro!: throws_intros throws_lift dest: second_field_exception py_in_exception)

lemma throws_test_insert: "throws (from_client cl) (test_insert cl)"
  unfolding test_insert_on_def
  by (intro throws_intros)

lemma throws_fix_and_test: "throws (from_client cl) (fix_and_test cl node_name)"
  unfolding fix_and_test_on_def
  by (intro throws_intros throws_apply_fix throws_verify_fix throws_test_insert)

lemma throws_fix_node_try: "throws (from_client cl) (fix_node_try cl node_name cfg)"
  unfolding fix_node_try_on_def
  by (auto intro!: throws_intros throws_check_id_column throws_fix_and_test)

lemma throws_fix_node_except:
  "from_client cl e \<Longrightarrow> throws (\<lambda>e. \<exists>t h c. e = PyBaseException t \<and> raises cl h c = Some e) (fix_node_except node_name e)"
  unfolding fix_node_except_on_def
  by (auto intro!: throws_intros throws_raise simp: from_client_def split: py_exception.splits)

lemma throws_fix_node:
  "throws (\<lambda>e. \<exists>t h c. e = PyBaseException t \<and> raises cl h c = Some e) (fix_node cl node_name cfg)"
  unfolding fix_node_on_def
  by (intro throws_intros throws_try_except [where E' = "from_client cl"] throws_fix_node_try
      throws_fix_node_except)

section \<open>What an action adds to the world\<close>

lemma extend_simps [simp]:
  "calls (extend w cs ps) = calls w @ cs"
  "printed (extend w cs ps) = printed w @ ps"
  "extend (extend w cs ps) cs' ps' = extend w (cs @ cs') (ps @ ps')"
  "extend w [] [] = w"
  by (simp_all add: extend_def)

lemma emitsI:
  "(\<And>w. \<exists>cs ps. snd (m w) = extend w cs ps
        \<and> list_all C cs \<and> list_all L ps) \<Longrightarrow> emits C L m"
  by (simp add: emits_def)

lemma emitsD:
  "emits C L m \<Longrightarrow> \<exists>cs ps. snd (m w) = extend w cs ps
        \<and> list_all C cs \<and> list_all L ps"
  by (simp add: emits_def)

lemma emits_return: "emits C L (return a)"
  by (rule emitsI, rule exI [of _ "[]"], rule exI [of _ "[]"]) (simp add: return_def extend_def)

lemma emits_raise: "emits C L (raise e)"
  by (rule emitsI, rule exI [of _ "[]"], rule exI [of _ "[]"]) (simp add: raise_def extend_def)

lemma emits_lift: "emits C L (lift r)"
  by (rule emitsI, rule exI [of _ "[]"], rule exI [of _ "[]"]) (simp add: lift_def extend_def)

lemma emits_print: "L s \<Longrightarrow> emits C L (print s)"
  by (rule emitsI, rule exI [of _ "[]"], rule exI [of _ "[s]"]) (simp add: print_to_def accepting_def extend_def)

lemma emits_db_call: "C c \<Longrightarrow> emits C L (db_call cl c)"
  by (rule emitsI, rule exI [of _ "[c]"], rule exI [of _ "[]"])
    (simp add: db_call_def extend_def split: option.splits)

lemma emits_db_fetchall: "C Fetchall \<Longrightarrow> emits C L (db_fetchall cl)"
  by (rule emitsI, rule exI [of _ "[Fetchall]"], rule exI [of _ "[]"])
    (simp add: db_fetchall_def extend_def split: option.splits)

lemma emits_db_fetchone: "C Fetchone \<Longrightarrow> emits C L (db_fetchone cl)"
  by (rule emitsI, rule exI [of _ "[Fetchone]"], rule exI [of _ "[]"])
    (simp add: db_fetchone_def extend_def split: option.splits)

lemma emits_db_lastrowid: "C Lastrowid \<Longrightarrow> emits C L (db_lastrowid cl)"
  by (rule emitsI, rule exI [of _ "[Lastrowid]"], rule exI [of _ "[]"])
    (simp add: db_lastrowid_def extend_def split: option.splits)

lemma emits_seq:
  assumes m: "emits C L m" and f: "\<And>a. emits C L (f a)"
  shows "emits C L (seq m f)"
proof (rule emitsI)
  fix w
  obtain r w1 where mw: "m w = (r, w1)"
    by (cases "m w")
  from emitsD [OF m, of w] mw obtain cs ps
    where w1: "w1 = extend w cs ps"
      and ok: "list_all C cs" "list_all L ps"
    by auto
  show "\<exists>cs ps. snd (seq m f w) = extend w cs ps
          \<and> list_all C cs \<and> list_all L ps"
  proof (cases r)
    case (Inl e)
    with mw have "snd (seq m f w) = w1" by (simp add: seq_def)
    with w1 ok show ?thesis by blast
  next
    case (Inr a)
    with mw have s: "snd (seq m f w) = snd (f a w1)" by (simp add: seq_def)
    from emitsD [OF f, of a w1] obtain cs' ps'
      where "snd (f a w1) = extend w1 cs' ps'"
        and ok': "list_all C cs'" "list_all L ps'"
      by auto
    with s w1 have "snd (seq m f w) =
        extend w (cs @ cs') (ps @ ps')"
      by simp
    moreover from ok ok' have "list_all C (cs @ cs')" "list_all L (ps @ ps')"
      by simp_all
    ultimately show ?thesis by blast
  qed
qed

lemma emits_try_except:
  assumes m: "emits C L m" and h: "\<And>e. emits C L (h e)"
  shows "emits C L (try_except m h)"
proof (rule emitsI)
  fix w
  obtain r w1 where mw: "m w = (r, w1)"
    by (cases "m w")
  from emitsD [OF m, of w] mw obtain cs ps
    where w1: "w1 = extend w cs ps"
      and ok: "list_all C cs" "list_all L ps"
    by auto
  show "\<exists>cs ps. snd (try_except m h w) = extend w cs ps
          \<and> list_all C cs \<and> list_all L ps"
  proof (cases r)
    case (Inr a)
    with mw have "snd (try_except m h w) = w1" by (simp add: try_except_def)
    with w1 ok show ?thesis by blast
  next
    case (Inl e)
    with mw have s: "snd (try_except m h w) = snd (h e w1)" by (simp add: try_except_def)
    from emitsD [OF h, of e w1] obtain cs' ps'
      where "snd (h e w1) = extend w1 cs' ps'"
        and ok': "list_all C cs'" "list_all L ps'"
      by auto
    with s w1 have "snd (try_except m h w) =
        extend w (cs @ cs') (ps @ ps')"
      by simp
    moreover from ok ok' have "list_all C (cs @ cs')" "list_all L (ps @ ps')"
      by simp_all
    ultimately show ?thesis by blast
  qed
qed

lemmas emits_intros =
  emits_return emits_raise emits_lift emits_print emits_seq emits_try_except
  emits_db_call emits_db_fetchall emits_db_fetchone emits_db_lastrowid

lemma routine_call_simps [simp]:
  "routine_call cfg (Connect cfg)" "routine_call cfg Cursor" "routine_call cfg Fetchall"
  "routine_call cfg Fetchone" "routine_call cfg Commit" "routine_call cfg Lastrowid"
  "routine_call cfg CursorClose" "routine_call cfg ConnClose"
  "routine_call cfg (Execute describe_sql)" "routine_call cfg (Execute alter_pk_sql)"
  "routine_call cfg (Execute alter_sql)" "routine_call cfg (Execute show_create_sql)"
  "routine_call cfg (Execute insert_sql)" "routine_call cfg (Execute (delete_sql test_id))"
  by (auto simp: routine_call_def)

lemma emits_check_id_column:
  "emits (routine_call cfg) (\<lambda>_. True) (check_id_column cl node_name columns)"
  unfolding check_id_column_on_def
  by (auto intro!: emits_intros split: list.splits)

lemma emits_alter_handler: "emits (routine_call cfg) (\<lambda>_. True) (alter_handler cl e)"
  unfolding alter_handler_on_def
  by (auto intro!: emits_intros split: py_exception.splits)

lemma emits_apply_fix: "emits (routine_call cfg) (\<lambda>_. True) (apply_fix cl)"
  unfolding apply_fix_on_def
  by (intro emits_intros emits_alter_handler) simp_all

lemma emits_verify_fix: "emits (routine_call cfg) (\<lambda>_. True) (verify_fix cl node_name)"
  unfolding verify_fix_on_def
  by (auto intro!: emits_intros)

lemma emits_test_insert: "emits (routine_call cfg) (\<lambda>_. True) (test_insert cl)"
  unfolding test_insert_on_def
  by (intro emits_intros) simp_all

lemma emits_fix_and_test: "emits (routine_call cfg) (\<lambda>_. True) (fix_and_test cl node_name)"
  unfolding fix_and_test_on_def
  by (intro emits_intros emits_apply_fix emits_verify_fix emits_test_insert) simp_all

lemma emits_fix_node_try: "emits (routine_call cfg) (\<lambda>_. True) (fix_node_try cl node_name cfg)"
  unfolding fix_node_try_on_def
  by (auto intro!: emits_intros emits_check_id_column emits_fix_and_test)

lemma emits_fix_node_except: "emits (routine_call cfg) (\<lambda>_. True) (fix_node_except node_name e)"
  unfolding fix_node_except_on_def
  by (auto intro!: emits_intros split: py_exception.splits)

lemma emits_fix_node: "emits (routine_call cfg) (\<lambda>_. True) (fix_node cl node_name cfg)"
  unfolding fix_node_on_def
  by (intro emits_intros emits_fix_node_try emits_fix_node_except) simp_all

section \<open>The first steps of the routine\<close>

lemma seq_print: "seq (print s) f w = f () (extend w [] [s])"
  by (simp add: seq_def print_to_def accepting_def extend_def)

lemma seq_extends:
  assumes m: "snd (m w) = extend w cs0 ps0"
      and f: "\<And>a. emits C L (f a)"
  shows "\<exists>cs ps. snd (seq m f w) = extend w (cs0 @ cs) (ps0 @ ps)"
proof -
  obtain r w1 where mw: "m w = (r, w1)"
    by (cases "m w")
  with m have w1: "w1 = extend w cs0 ps0"
    by simp
  show ?thesis
  proof (cases r)
    case (Inl e)
    with mw w1 have "snd (seq m f w) = extend w (cs0 @ []) (ps0 @ [])"
      by (simp add: seq_def)
    then show ?thesis by blast
  next
    case (Inr a)
    from emitsD [OF f, of a w1] obtain cs ps where "snd (f a w1) = extend w1 cs ps"
      by blast
    with Inr mw w1 have "snd (seq m f w) = extend w (cs0 @ cs) (ps0 @ ps)"
      by (simp add: seq_def)
    then show ?thesis by blast
  qed
qed

lemma try_extends:
  assumes m: "snd (m w) = extend w cs0 ps0"
      and h: "\<And>e. emits C L (h e)"
  shows "\<exists>cs ps. snd (try_except m h w) = extend w (cs0 @ cs) (ps0 @ ps)"
proof -
  obtain r w1 where mw: "m w = (r, w1)"
    by (cases "m w")
  with m have w1: "w1 = extend w cs0 ps0"
    by simp
  show ?thesis
  proof (cases r)
    case (Inr a)
    with mw w1 have "snd (try_except m h w) = extend w (cs0 @ []) (ps0 @ [])"
      by (simp add: try_except_def)
    then show ?thesis by blast
  next
    case (Inl e)
    from emitsD [OF h, of e w1] obtain cs ps where "snd (h e w1) = extend w1 cs ps"
      by blast
    with Inl mw w1 have "snd (try_except m h w) = extend w (cs0 @ cs) (ps0 @ ps)"
      by (simp add: try_except_def)
    then show ?thesis by blast
  qed
qed

lemma db_call_world: "snd (db_call cl c w) = extend w [c] []"
  by (simp add: db_call_def extend_def split: option.splits)

lemma db_call_returns:
  "raises cl (calls w) c = None \<Longrightarrow> db_call cl c w = (Inr (), extend w [c] [])"
  by (simp add: db_call_def extend_def)

lemma db_call_raises:
  "raises cl (calls w) c = Some e \<Longrightarrow> db_call cl c w = (Inl e, extend w [c] [])"
  by (simp add: db_call_def extend_def)

text \<open>Lines 37-43: the banner, then the body of the \<^verbatim>\<open>try\<close>.\<close>

lemma fix_node_banner:
  "fix_node cl node_name cfg w =
     try_except (fix_node_try cl node_name cfg) (fix_node_except node_name)
       (extend w [] (banner node_name))"
  by (simp add: fix_node_on_def seq_print banner_def)

text \<open>Lines 45-51 when the four calls return.\<close>

lemma fix_node_try_inspect:
  assumes "describe_output cl cfg (calls w) = Some columns"
  shows "fix_node_try cl node_name cfg w =
           seq (check_id_column cl node_name columns)
             (\<lambda>done. if done then return True else fix_and_test cl node_name)
             (extend w (inspect_calls cfg) [''1. Checking current table structure...''])"
  using assms
  by (simp add: fix_node_try_on_def describe_output_def inspect_calls_def seq_def print_to_def accepting_def
      db_call_def db_fetchall_def extend_def split: if_splits)

text \<open>Lines 64-68: the next call after the check is the \<^verbatim>\<open>ALTER\<close> with \<^verbatim>\<open>PRIMARY KEY\<close>.\<close>

lemma apply_fix_starts:
  "\<exists>cs ps. snd (apply_fix cl w) =
     extend w ([Execute alter_pk_sql] @ cs) ([''2. Applying AUTO_INCREMENT fix...''] @ ps)"
proof -
  let ?w1 = "extend w [] [''2. Applying AUTO_INCREMENT fix...'']"
  have "\<exists>cs ps. snd (try_except (db_call cl (Execute alter_pk_sql)) (alter_handler cl) ?w1) =
      extend ?w1 ([Execute alter_pk_sql] @ cs) ([] @ ps)"
    by (rule try_extends [where C = "routine_call cfg0" and L = "\<lambda>_. True"],
        rule db_call_world, rule emits_alter_handler)
  then obtain cs ps where tried:
    "snd (try_except (db_call cl (Execute alter_pk_sql)) (alter_handler cl) ?w1) =
      extend ?w1 ([Execute alter_pk_sql] @ cs) ps"
    by auto
  have "\<exists>cs' ps'. snd (seq (try_except (db_call cl (Execute alter_pk_sql)) (alter_handler cl))
      (\<lambda>_. seq (db_call cl Commit)
        (\<lambda>_. print (''   '' @ check_mark @ '' ALTER TABLE executed successfully''))) ?w1) =
      extend ?w1 (([Execute alter_pk_sql] @ cs) @ cs') (ps @ ps')"
    by (rule seq_extends [where C = "routine_call cfg0" and L = "\<lambda>_. True"],
        rule tried, intro emits_intros, simp_all)
  then show ?thesis
    unfolding apply_fix_on_def seq_print by auto
qed

lemma fix_and_test_starts:
  "\<exists>cs ps. snd (fix_and_test cl node_name w) =
     extend w ([Execute alter_pk_sql] @ cs) ([''2. Applying AUTO_INCREMENT fix...''] @ ps)"
proof -
  from apply_fix_starts [of cl w] obtain cs ps where applied:
    "snd (apply_fix cl w) =
       extend w ([Execute alter_pk_sql] @ cs) ([''2. Applying AUTO_INCREMENT fix...''] @ ps)"
    by auto
  have "\<exists>cs' ps'. snd (seq (apply_fix cl)
      (\<lambda>_. seq (verify_fix cl node_name)
        (\<lambda>_. seq (test_insert cl)
          (\<lambda>_. seq (db_call cl CursorClose)
            (\<lambda>_. seq (db_call cl ConnClose)
              (\<lambda>_. seq (print (check_mark @ '' '' @ node_name @ '' is ready!''))
                (\<lambda>_. return True)))))) w) =
      extend w (([Execute alter_pk_sql] @ cs) @ cs')
        (([''2. Applying AUTO_INCREMENT fix...''] @ ps) @ ps')"
    by (rule seq_extends [where C = "routine_call cfg0" and L = "\<lambda>_. True"],
        rule applied, intro emits_intros emits_verify_fix emits_test_insert, simp_all)
  then show ?thesis
    unfolding fix_and_test_on_def by auto
qed

text \<open>
  The comprehension of line 53: when every row has a first field it is a filter, and a row
  with no field at all makes it raise.
\<close>

lemma select_id_column_filter:
  "\<forall>col \<in> set columns. col \<noteq> [] \<Longrightarrow>
     select_id_column columns = Inr (filter (\<lambda>col. col ! 0 = PStr ''id'') columns)"
  by (induction columns) (auto simp: py_index_def)

lemma select_id_column_empty_row:
  "[] \<in> set columns \<Longrightarrow>
     select_id_column columns = Inl (PyException ''tuple index out of range'')"
  by (induction columns) (auto simp: py_index_def split: sum.splits)

text \<open>The comprehension of line 53 on rows none of which is named \<^verbatim>\<open>id\<close>.\<close>

lemma select_id_column_none:
  "\<forall>col \<in> set columns. col \<noteq> [] \<and> col ! 0 \<noteq> PStr ''id'' \<Longrightarrow> select_id_column columns = Inr []"
  by (induction columns) (auto simp: py_index_def)

text \<open>Lines 53-62 in the three cases that raise nothing.\<close>

lemma check_id_column_skipped:
  "select_id_column columns = Inr [] \<Longrightarrow>
     check_id_column cl node_name columns w = (Inr False, extend w [] [])"
  by (simp add: check_id_column_on_def seq_def lift_def return_def)

lemma check_id_column_not_set:
  "select_id_column columns = Inr (r # rs) \<Longrightarrow> reports_auto_increment r = Inr False \<Longrightarrow>
     check_id_column cl node_name columns w =
       (Inr False,
        extend w [] [''   '' @ cross_mark @ '' AUTO_INCREMENT NOT set on '' @ node_name])"
  by (simp add: check_id_column_on_def seq_def lift_def return_def print_to_def accepting_def extend_def)

lemma check_id_column_already:
  "select_id_column columns = Inr (r # rs) \<Longrightarrow> reports_auto_increment r = Inr True \<Longrightarrow>
     check_id_column cl node_name columns w =
       seq (db_call cl CursorClose) (\<lambda>_. seq (db_call cl ConnClose) (\<lambda>_. return True))
         (extend w [] [''   '' @ check_mark @ '' AUTO_INCREMENT already set on '' @ node_name])"
  by (simp add: check_id_column_on_def seq_def [of "lift _"] lift_def seq_print)

lemma short_row_not_auto_increment:
  "length r < 6 \<Longrightarrow> extra_of r = PStr [] \<and> reports_auto_increment r = Inr False"
  by (simp add: extra_of_def reports_auto_increment_def)

lemma reports_auto_increment_str:
  "5 < length r \<Longrightarrow> r ! 5 = PStr extra \<Longrightarrow>
     reports_auto_increment r = Inr (str_contains ''auto_increment'' (map lower_char extra))"
  by (simp add: extra_of_def reports_auto_increment_def)

text \<open>The run from the check on, when the check neither returns nor raises.\<close>

lemma fix_node_goes_on:
  assumes described: "describe_output cl cfg (calls w) = Some columns"
      and checked: "\<And>w'. check_id_column cl node_name columns w' = (Inr False, extend w' [] said)"
  shows "\<exists>cs ps. snd (fix_node cl node_name cfg w) =
     extend w ((inspect_calls cfg @ [Execute alter_pk_sql]) @ cs)
       ((banner node_name @ [''1. Checking current table structure...''] @ said
          @ [''2. Applying AUTO_INCREMENT fix...'']) @ ps)"
proof -
  let ?w0 = "extend w [] (banner node_name)"
  let ?w2 = "extend w (inspect_calls cfg)
    (banner node_name @ [''1. Checking current table structure...''] @ said)"
  from described have "describe_output cl cfg (calls ?w0) = Some columns"
    by simp
  then have "fix_node_try cl node_name cfg ?w0 = fix_and_test cl node_name ?w2"
    by (simp add: fix_node_try_inspect seq_def checked)
  moreover from fix_and_test_starts [of cl node_name ?w2] obtain cs ps where
    "snd (fix_and_test cl node_name ?w2) =
       extend ?w2 ([Execute alter_pk_sql] @ cs) ([''2. Applying AUTO_INCREMENT fix...''] @ ps)"
    by blast
  ultimately have tried: "snd (fix_node_try cl node_name cfg ?w0) =
      extend ?w0 (inspect_calls cfg @ [Execute alter_pk_sql] @ cs)
        ([''1. Checking current table structure...''] @ said
            @ [''2. Applying AUTO_INCREMENT fix...''] @ ps)"
    by simp
  have "\<exists>cs' ps'. snd (try_except (fix_node_try cl node_name cfg) (fix_node_except node_name) ?w0) =
      extend ?w0 ((inspect_calls cfg @ [Execute alter_pk_sql] @ cs) @ cs')
        (([''1. Checking current table structure...''] @ said
            @ [''2. Applying AUTO_INCREMENT fix...''] @ ps) @ ps')"
    by (rule try_extends [where C = "routine_call cfg" and L = "\<lambda>_. True"],
        rule tried, rule emits_fix_node_except)
  then obtain cs' ps' where
    "snd (fix_node cl node_name cfg w) =
      extend ?w0 ((inspect_calls cfg @ [Execute alter_pk_sql] @ cs) @ cs')
        (([''1. Checking current table structure...''] @ said
            @ [''2. Applying AUTO_INCREMENT fix...''] @ ps) @ ps')"
    unfolding fix_node_banner by blast
  then have "snd (fix_node cl node_name cfg w) =
     extend w ((inspect_calls cfg @ [Execute alter_pk_sql]) @ (cs @ cs'))
       ((banner node_name @ [''1. Checking current table structure...''] @ said
          @ [''2. Applying AUTO_INCREMENT fix...'']) @ (ps @ ps'))"
    by simp
  then show ?thesis by blast
qed

section \<open>The loop over the nodes\<close>

lemma emits_mono:
  assumes "emits C L m" and "\<And>c. C c \<Longrightarrow> C' c"
  shows "emits C' L m"
proof (rule emitsI)
  fix w
  from emitsD [OF assms(1), of w] obtain cs ps
    where "snd (m w) = extend w cs ps" "list_all C cs" "list_all L ps"
    by blast
  moreover from \<open>list_all C cs\<close> assms(2) have "list_all C' cs"
    by (simp add: list_all_iff)
  ultimately show "\<exists>cs ps. snd (m w) = extend w cs ps \<and> list_all C' cs \<and> list_all L ps"
    by blast
qed

lemma routine_call_connects_complete:
  "config_complete cfg \<Longrightarrow> routine_call cfg c \<Longrightarrow> connects_complete c"
  by (cases c) (simp_all add: routine_call_def connects_complete_def)

text \<open>Lines 127-130: a node with an incomplete configuration.\<close>

lemma node_step_skip:
  "\<not> config_complete cfg \<Longrightarrow>
     node_step cl (node_name, cfg) results w =
       (Inr (AList.update node_name False results),
        extend w [] [[CHR 0x0A] @ warning_mark @ '' Skipping '' @ node_name @
          '' - incomplete configuration''])"
  by (simp add: node_step_on_def seq_print return_def)

text \<open>Line 132: a node with a complete configuration.\<close>

lemma node_step_fix:
  "config_complete cfg \<Longrightarrow>
     node_step cl (node_name, cfg) results w =
       (case fix_node cl node_name cfg w of
          (Inl e, w') \<Rightarrow> (Inl e, w')
        | (Inr success, w') \<Rightarrow> (Inr (AList.update node_name success results), w'))"
  by (simp add: node_step_on_def seq_def return_def split: prod.splits sum.splits)

lemma node_step_result:
  assumes "node_step cl (node_name, cfg) results w = (Inr results', w')"
  shows "\<exists>success. results' = AList.update node_name success results
           \<and> (\<not> config_complete cfg \<longrightarrow> \<not> success)"
proof (cases "config_complete cfg")
  case False
  with assms show ?thesis by (auto simp: node_step_skip)
next
  case True
  with assms show ?thesis
    by (auto simp: node_step_fix split: prod.splits sum.splits)
qed

lemma emits_node_step: "emits connects_complete (\<lambda>_. True) (node_step cl item results)"
proof (cases item)
  case (Pair node_name cfg)
  show ?thesis
  proof (cases "config_complete cfg")
    case False
    with Pair show ?thesis
      unfolding node_step_on_def
      by (auto intro!: emits_intros simp: connects_complete_def)
  next
    case True
    have "emits connects_complete (\<lambda>_. True) (fix_node cl node_name cfg)"
      by (rule emits_mono [OF emits_fix_node]) (rule routine_call_connects_complete [OF True])
    with Pair True show ?thesis
      unfolding node_step_on_def
      by (auto intro!: emits_intros)
  qed
qed

lemma emits_run_nodes: "emits connects_complete (\<lambda>_. True) (run_nodes cl items results)"
  by (induction items arbitrary: results) (auto intro!: emits_intros emits_node_step)

lemma run_nodes_Cons:
  assumes "run_nodes cl ((node_name, cfg) # items) results w = (Inr final, w')"
  obtains success w1 where
    "node_step cl (node_name, cfg) results w = (Inr (AList.update node_name success results), w1)"
    "\<not> config_complete cfg \<longrightarrow> \<not> success"
    "run_nodes cl items (AList.update node_name success results) w1 = (Inr final, w')"
proof -
  obtain r w1 where step: "node_step cl (node_name, cfg) results w = (r, w1)"
    by (cases "node_step cl (node_name, cfg) results w")
  with assms obtain results' where r: "r = Inr results'"
    and rest: "run_nodes cl items results' w1 = (Inr final, w')"
    by (cases r) (auto simp: seq_def)
  from node_step_result [OF step [unfolded r]] obtain success
    where "results' = AList.update node_name success results"
      "\<not> config_complete cfg \<longrightarrow> \<not> success"
    by blast
  with step r rest that show ?thesis by blast
qed

text \<open>One entry per node, in the order of the loop.\<close>

lemma run_nodes_keys:
  assumes "run_nodes cl items results w = (Inr final, w')"
      and "distinct (map fst items)"
      and "set (map fst items) \<inter> set (map fst results) = {}"
  shows "map fst final = map fst results @ map fst items"
  using assms
proof (induction items arbitrary: results w)
  case Nil
  then show ?case by (simp add: return_def)
next
  case (Cons item items)
  obtain node_name cfg where item: "item = (node_name, cfg)"
    by (cases item)
  from Cons.prems(1) [unfolded item] obtain success w1 where
    rest: "run_nodes cl items (AList.update node_name success results) w1 = (Inr final, w')"
    by (rule run_nodes_Cons)
  from Cons.prems(2,3) item have fresh: "node_name \<notin> set (map fst results)"
    and "distinct (map fst items)"
    and "set (map fst items) \<inter> set (map fst (AList.update node_name success results)) = {}"
    by (auto simp: update_keys)
  with Cons.IH [OF rest] have "map fst final =
      map fst (AList.update node_name success results) @ map fst items"
    by blast
  with fresh item show ?case by (simp add: update_keys)
qed

lemma run_nodes_other:
  assumes "run_nodes cl items results w = (Inr final, w')"
      and "node_name \<notin> set (map fst items)"
  shows "map_of final node_name = map_of results node_name"
  using assms
proof (induction items arbitrary: results w)
  case Nil
  then show ?case by (simp add: return_def)
next
  case (Cons item items)
  obtain other cfg where item: "item = (other, cfg)"
    by (cases item)
  from Cons.prems(1) [unfolded item] obtain success w1 where
    rest: "run_nodes cl items (AList.update other success results) w1 = (Inr final, w')"
    by (rule run_nodes_Cons)
  from Cons.prems(2) item have "other \<noteq> node_name" "node_name \<notin> set (map fst items)"
    by auto
  with Cons.IH [OF rest] show ?case by (simp add: update_conv')
qed

text \<open>A node with an incomplete configuration ends up recorded as failed.\<close>

lemma run_nodes_skipped:
  assumes "run_nodes cl items results w = (Inr final, w')"
      and "distinct (map fst items)"
      and "(node_name, cfg) \<in> set items"
      and "\<not> config_complete cfg"
  shows "map_of final node_name = Some False"
  using assms
proof (induction items arbitrary: results w)
  case Nil
  then show ?case by simp
next
  case (Cons item items)
  obtain other cfg' where item: "item = (other, cfg')"
    by (cases item)
  from Cons.prems(1) [unfolded item] obtain success w1 where
    failed: "\<not> config_complete cfg' \<longrightarrow> \<not> success"
    and rest: "run_nodes cl items (AList.update other success results) w1 = (Inr final, w')"
    by (rule run_nodes_Cons)
  show ?case
  proof (cases "(node_name, cfg) \<in> set items")
    case True
    with Cons.IH [OF rest] Cons.prems(2,4) show ?thesis by simp
  next
    case False
    with Cons.prems(3) item have same: "other = node_name" "cfg' = cfg"
      by auto
    with Cons.prems(2) item have "node_name \<notin> set (map fst items)"
      by simp
    from run_nodes_other [OF rest this] same failed Cons.prems(4)
    show ?thesis by (simp add: update_conv')
  qed
qed

text \<open>The loop ends unless an exception outside \<^verbatim>\<open>Exception\<close> is raised.\<close>

lemma fix_node_no_exception:
  assumes "raises_only_Exception cl"
  shows "\<exists>b w'. fix_node cl node_name cfg w = (Inr b, w')"
proof (cases "fst (fix_node cl node_name cfg w)")
  case (Inl e)
  with throws_fix_node [of cl node_name cfg]
  obtain t h c where "raises cl h c = Some (PyBaseException t)"
    unfolding throws_def by blast
  with assms show ?thesis by (simp add: raises_only_Exception_def)
next
  case (Inr b)
  then show ?thesis by (cases "fix_node cl node_name cfg w") auto
qed

lemma run_nodes_returns:
  assumes "raises_only_Exception cl"
  shows "\<exists>final w'. run_nodes cl items results w = (Inr final, w')"
proof (induction items arbitrary: results w)
  case Nil
  show ?case by (simp add: return_def)
next
  case (Cons item items)
  obtain node_name cfg where item: "item = (node_name, cfg)"
    by (cases item)
  have "\<exists>results' w1. node_step cl (node_name, cfg) results w = (Inr results', w1)"
  proof (cases "config_complete cfg")
    case False
    then show ?thesis by (simp add: node_step_skip)
  next
    case True
    from fix_node_no_exception [OF assms, of node_name cfg w] obtain b w1
      where "fix_node cl node_name cfg w = (Inr b, w1)" by blast
    with True show ?thesis by (simp add: node_step_fix)
  qed
  then obtain results' w1 where "node_step cl (node_name, cfg) results w = (Inr results', w1)"
    by blast
  moreover from Cons.IH [of results' w1] obtain final w'
    where "run_nodes cl items results' w1 = (Inr final, w')" by blast
  ultimately show ?case using item by (simp add: seq_def)
qed

section \<open>The summary\<close>

lemma print_all_lines: "print_all ls w = (Inr (), extend w [] ls)"
proof (induction ls arbitrary: w)
  case Nil
  show ?case by (simp add: return_def)
next
  case (Cons l ls)
  then show ?case by (simp add: seq_print)
qed

lemma summary_prints: "summary results w = (Inr (), extend w [] (summary_lines results))"
  by (simp add: summary_on_def seq_print seq_def [of "print_all _"] print_all_lines print_to_def accepting_def
      summary_lines_def closing_lines_def extend_def)

lemma main_run_nodes:
  "main cl node_items w =
     (case run_nodes cl node_items [] (extend w [] opening_lines) of
        (Inl e, w') \<Rightarrow> (Inl e, w')
      | (Inr results, w') \<Rightarrow> (Inr results, extend w' [] (summary_lines results)))"
  by (simp add: main_on_def seq_print seq_def [of "run_nodes _ _ _"] seq_def [of "summary _"]
      summary_prints return_def opening_lines_def split: prod.splits sum.splits)

lemma main_returned:
  assumes "main cl node_items w = (Inr results, w')"
  obtains w1 where "run_nodes cl node_items [] (extend w [] opening_lines) = (Inr results, w1)"
    and "w' = extend w1 [] (summary_lines results)"
  using assms unfolding main_run_nodes
  by (auto split: prod.splits sum.splits)

text \<open>With distinct keys, the entries that are true are counted by name.\<close>

lemma lookup_is_entry:
  assumes "distinct (map fst results)" and "item \<in> set results"
  shows "(map_of results (fst item) = Some True) = snd item"
proof (cases item)
  case (Pair node_name success)
  with assms have "map_of results node_name = Some success"
    by simp
  with Pair show ?thesis by simp
qed

lemma success_count_by_name:
  assumes "distinct (map fst results)"
  shows "success_count results =
           length (filter (\<lambda>node_name. map_of results node_name = Some True) (map fst results))"
proof -
  have "filter (\<lambda>item. map_of results (fst item) = Some True) results = filter snd results"
    by (rule filter_cong) (simp_all add: lookup_is_entry [OF assms])
  then show ?thesis
    by (simp add: success_count_def filter_map comp_def)
qed

lemma status_line_by_name:
  assumes "distinct (map fst results)"
  shows "map status_line results =
           map (\<lambda>node_name. node_name @ '': '' @
                  (if map_of results node_name = Some True then check_mark @ '' FIXED''
                   else cross_mark @ '' FAILED''))
               (map fst results)"
  using lookup_is_entry [OF assms]
  by (auto simp: status_line_def split: prod.splits)

section \<open>From the verification on\<close>

lemma fix_and_test_after_verification:
  "fix_and_test cl node_name =
     seq (apply_fix cl) (\<lambda>_. seq (verify_fix cl node_name) (\<lambda>_. after_verification cl node_name))"
  by (simp add: fix_and_test_on_def after_verification_on_def fun_eq_iff)

text \<open>Lines 79-85 when the statement and the fetch return and the second field is a \<^verbatim>\<open>str\<close>.\<close>

lemma verify_fix_verdict:
  assumes "raises cl (calls w) (Execute show_create_sql) = None"
      and "raises cl (calls w @ [Execute show_create_sql]) Fetchone = None"
      and "fetchone_row cl (calls w @ [Execute show_create_sql]) = Some t"
      and "1 < length t" "t ! 1 = PStr create_table"
  shows "verify_fix cl node_name w =
           (Inr (),
            extend w [Execute show_create_sql, Fetchone]
              [''3. Verifying fix...'',
               if str_contains ''AUTO_INCREMENT'' create_table
               then ''   '' @ check_mark @ '' '' @ node_name @ '' fixed successfully!''
               else ''   '' @ cross_mark @ '' Verification failed on '' @ node_name])"
  using assms
  by (simp add: verify_fix_on_def seq_def print_to_def accepting_def db_call_def db_fetchone_def lift_def
      second_field_def py_index_def extend_def)

lemma emits_after_verification:
  "emits (routine_call cfg) (\<lambda>_. True) (after_verification cl node_name)"
  unfolding after_verification_on_def
  by (intro emits_intros emits_test_insert) simp_all

lemma test_insert_starts:
  "\<exists>cs ps. snd (test_insert cl w) =
     extend w ([Execute insert_sql] @ cs)
       ([''4. Testing auto-increment with test insert...''] @ ps)"
proof -
  let ?w1 = "extend w [] [''4. Testing auto-increment with test insert...'']"
  have "\<exists>cs ps. snd (seq (db_call cl (Execute insert_sql))
      (\<lambda>_. seq (db_call cl Commit)
        (\<lambda>_. seq (db_lastrowid cl)
          (\<lambda>test_id. seq (print (''   '' @ check_mark @
                '' Test insert successful! Auto-generated ID: '' @ format_rowid test_id))
            (\<lambda>_. seq (db_call cl (Execute (delete_sql test_id)))
              (\<lambda>_. seq (db_call cl Commit)
                (\<lambda>_. print (''   '' @ check_mark @ '' Test data cleaned up''))))))) ?w1) =
      extend ?w1 ([Execute insert_sql] @ cs) ([] @ ps)"
    by (rule seq_extends [where C = "routine_call cfg0" and L = "\<lambda>_. True"],
        rule db_call_world, intro emits_intros, simp_all)
  then show ?thesis
    unfolding test_insert_on_def seq_print by auto
qed

lemma after_verification_starts:
  "\<exists>cs ps. snd (after_verification cl node_name w) =
     extend w ([Execute insert_sql] @ cs)
       ([''4. Testing auto-increment with test insert...''] @ ps)"
proof -
  from test_insert_starts [of cl w] obtain cs ps where tested:
    "snd (test_insert cl w) =
       extend w ([Execute insert_sql] @ cs)
         ([''4. Testing auto-increment with test insert...''] @ ps)"
    by blast
  have "\<exists>cs' ps'. snd (seq (test_insert cl)
      (\<lambda>_. seq (db_call cl CursorClose)
        (\<lambda>_. seq (db_call cl ConnClose)
          (\<lambda>_. seq (print (check_mark @ '' '' @ node_name @ '' is ready!''))
            (\<lambda>_. return True)))) w) =
      extend w (([Execute insert_sql] @ cs) @ cs')
        (([''4. Testing auto-increment with test insert...''] @ ps) @ ps')"
    by (rule seq_extends [where C = "routine_call cfg0" and L = "\<lambda>_. True"],
        rule tested, intro emits_intros, simp_all)
  then show ?thesis
    unfolding after_verification_on_def by auto
qed

text \<open>
  The whole routine when the check does not return, the \<^verbatim>\<open>ALTER\<close> is committed and the
  verification has printed its verdict.
\<close>

lemma fix_node_from_verification:
  assumes described: "describe_output cl cfg (calls w) = Some columns"
      and checked: "check_id_column cl node_name columns
          (extend w (inspect_calls cfg)
             (banner node_name @ [''1. Checking current table structure...''])) = (Inr False, wa)"
      and applied: "apply_fix cl wa = (Inr (), w1)"
      and verified: "verify_fix cl node_name w1 = (Inr (), w2)"
  shows "fix_node cl node_name cfg w =
           try_except (after_verification cl node_name) (fix_node_except node_name) w2"
proof -
  let ?w0 = "extend w [] (banner node_name)"
  have "fix_node_try cl node_name cfg ?w0 =
      seq (check_id_column cl node_name columns)
        (\<lambda>done. if done then return True else fix_and_test cl node_name)
        (extend ?w0 (inspect_calls cfg) [''1. Checking current table structure...''])"
    using described by (intro fix_node_try_inspect) simp
  with checked have "fix_node_try cl node_name cfg ?w0 = fix_and_test cl node_name wa"
    by (simp add: seq_def)
  also from applied verified have "\<dots> = after_verification cl node_name w2"
    by (simp add: fix_and_test_after_verification seq_def)
  finally show ?thesis
    by (simp add: fix_node_banner try_except_def)
qed


section \<open>What has been printed does not steer the routine\<close>

lemma blindI:
  "(\<And>w w'. calls w = calls w' \<Longrightarrow>
      fst (m w) = fst (m w') \<and> calls (snd (m w)) = calls (snd (m w'))) \<Longrightarrow> blind m"
  unfolding blind_def by blast

lemma blindD:
  "blind m \<Longrightarrow> calls w = calls w' \<Longrightarrow>
     fst (m w) = fst (m w') \<and> calls (snd (m w)) = calls (snd (m w'))"
  unfolding blind_def by blast

lemma blind_return: "blind (return a)"
  by (rule blindI) (simp add: return_def)

lemma blind_raise: "blind (raise e)"
  by (rule blindI) (simp add: raise_def)

lemma blind_print: "blind (print s)"
  by (rule blindI) (simp add: print_to_def accepting_def)

lemma blind_db_call: "blind (db_call cl c)"
proof (rule blindI)
  fix w w' :: world
  assume "calls w = calls w'"
  then show "fst (db_call cl c w) = fst (db_call cl c w')
      \<and> calls (snd (db_call cl c w)) = calls (snd (db_call cl c w'))"
    by (cases "raises cl (calls w') c") (simp_all add: db_call_def)
qed

lemma blind_db_lastrowid: "blind (db_lastrowid cl)"
proof (rule blindI)
  fix w w' :: world
  assume "calls w = calls w'"
  then show "fst (db_lastrowid cl w) = fst (db_lastrowid cl w')
      \<and> calls (snd (db_lastrowid cl w)) = calls (snd (db_lastrowid cl w'))"
    by (cases "raises cl (calls w') Lastrowid") (simp_all add: db_lastrowid_def)
qed

lemma blind_seq:
  assumes m: "blind m" and f: "\<And>a. blind (f a)"
  shows "blind (seq m f)"
proof (rule blindI)
  fix w w' :: world
  assume same: "calls w = calls w'"
  obtain r w1 where mw: "m w = (r, w1)" by (cases "m w")
  obtain r' w1' where mw': "m w' = (r', w1')" by (cases "m w'")
  from blindD [OF m same] mw mw' have r: "r' = r" and c1: "calls w1 = calls w1'"
    by simp_all
  show "fst (seq m f w) = fst (seq m f w') \<and> calls (snd (seq m f w)) = calls (snd (seq m f w'))"
  proof (cases r)
    case (Inl e)
    with mw mw' r c1 show ?thesis by (simp add: seq_def)
  next
    case (Inr a)
    with mw mw' r blindD [OF f c1, of a] show ?thesis by (simp add: seq_def)
  qed
qed

lemma blind_try_except:
  assumes m: "blind m" and h: "\<And>e. blind (h e)"
  shows "blind (try_except m h)"
proof (rule blindI)
  fix w w' :: world
  assume same: "calls w = calls w'"
  obtain r w1 where mw: "m w = (r, w1)" by (cases "m w")
  obtain r' w1' where mw': "m w' = (r', w1')" by (cases "m w'")
  from blindD [OF m same] mw mw' have r: "r' = r" and c1: "calls w1 = calls w1'"
    by simp_all
  show "fst (try_except m h w) = fst (try_except m h w')
      \<and> calls (snd (try_except m h w)) = calls (snd (try_except m h w'))"
  proof (cases r)
    case (Inr a)
    with mw mw' r c1 show ?thesis by (simp add: try_except_def)
  next
    case (Inl e)
    with mw mw' r blindD [OF h c1, of e] show ?thesis by (simp add: try_except_def)
  qed
qed

lemmas blind_intros =
  blind_return blind_raise blind_print blind_db_call blind_db_lastrowid blind_seq
  blind_try_except

lemma blind_fix_node_except: "blind (fix_node_except node_name e)"
proof (cases e)
  case (MySQLError errno msg)
  then show ?thesis
    by (simp add: fix_node_except_on_def) (intro blind_seq blind_print blind_return)
next
  case (PyException msg)
  then show ?thesis
    by (simp add: fix_node_except_on_def) (intro blind_seq blind_print blind_return)
next
  case (PyBaseException msg)
  then show ?thesis
    by (simp add: fix_node_except_on_def blind_raise)
qed

lemma blind_after_verification:
  "blind (try_except (after_verification cl node_name) (fix_node_except node_name))"
  unfolding after_verification_on_def test_insert_on_def
  by (intro blind_intros blind_fix_node_except)

section \<open>A client that differs in the table definition it returns\<close>

lemma db_call_other_definition: "db_call (cl\<lparr>fetchone_row := f\<rparr>) c = db_call cl c"
  by (simp add: db_call_def fun_eq_iff)

lemma db_lastrowid_other_definition: "db_lastrowid (cl\<lparr>fetchone_row := f\<rparr>) = db_lastrowid cl"
  by (simp add: db_lastrowid_def fun_eq_iff split: option.splits)

lemma describe_output_other_definition:
  "describe_output (cl\<lparr>fetchone_row := f\<rparr>) cfg h = describe_output cl cfg h"
  by (simp add: describe_output_def)

lemma check_id_column_other_definition:
  "check_id_column (cl\<lparr>fetchone_row := f\<rparr>) node_name columns = check_id_column cl node_name columns"
  by (simp add: check_id_column_on_def db_call_other_definition cong: list.case_cong if_cong)

lemma apply_fix_other_definition: "apply_fix (cl\<lparr>fetchone_row := f\<rparr>) = apply_fix cl"
  by (simp add: apply_fix_on_def alter_handler_on_def [abs_def] db_call_other_definition
      cong: py_exception.case_cong if_cong)

lemma after_verification_other_definition:
  "after_verification (cl\<lparr>fetchone_row := f\<rparr>) node_name = after_verification cl node_name"
  by (simp add: after_verification_on_def test_insert_on_def db_call_other_definition
      db_lastrowid_other_definition)


section \<open>Running the routine on a concrete node\<close>

lemmas action_defs =
  seq_def try_except_def return_def raise_def lift_def print_to_def accepting_def
  db_call_def db_fetchall_def db_fetchone_def db_lastrowid_def

lemmas routine_defs =
  fix_node_on_def fix_node_try_on_def check_id_column_on_def fix_and_test_on_def apply_fix_on_def
  alter_handler_on_def verify_fix_on_def test_insert_on_def fix_node_except_on_def
  reports_auto_increment_def extra_of_def second_field_def py_index_def lower_char_def
  delete_sql_def format_rowid_def str_int_def str_nat.simps

lemmas node_defs =
  scripted_client_def cfg0_def world0_def unfixed_columns_def fixed_columns_def
  created_with_marker_def created_without_marker_def describe_output_def inspect_calls_def
  banner_def extend_def

section \<open>The calls of an action, each at the history it is made in\<close>

lemma calls_ok_append:
  "calls_ok C h (cs @ ds) = (calls_ok C h cs \<and> calls_ok C (h @ cs) ds)"
  by (induction cs arbitrary: h) simp_all

lemma issuesI:
  "(\<And>w. \<exists>cs ps. snd (m w) = extend w cs ps \<and> calls_ok C (calls w) cs) \<Longrightarrow> issues C m"
  by (simp add: issues_def)

lemma issuesD:
  "issues C m \<Longrightarrow> \<exists>cs ps. snd (m w) = extend w cs ps \<and> calls_ok C (calls w) cs"
  by (simp add: issues_def)

lemma issues_return: "issues C (return a)"
  by (rule issuesI, rule exI [of _ "[]"], rule exI [of _ "[]"]) (simp add: return_def)

lemma issues_raise: "issues C (raise e)"
  by (rule issuesI, rule exI [of _ "[]"], rule exI [of _ "[]"]) (simp add: raise_def)

lemma issues_lift: "issues C (lift r)"
  by (rule issuesI, rule exI [of _ "[]"], rule exI [of _ "[]"]) (simp add: lift_def)

lemma issues_print_to: "issues C (print_to out s)"
proof (rule issuesI)
  fix w
  show "\<exists>cs ps. snd (print_to out s w) = extend w cs ps \<and> calls_ok C (calls w) cs"
  proof (cases "out (printed w) s")
    case None
    then have "snd (print_to out s w) = extend w [] [s]"
      by (simp add: print_to_def extend_def)
    then show ?thesis
      by (intro exI [of _ "[]"] exI [of _ "[s]"]) simp
  next
    case (Some e)
    then have "snd (print_to out s w) = extend w [] []"
      by (simp add: print_to_def)
    then show ?thesis
      by (intro exI [of _ "[]"]) simp
  qed
qed

lemma issues_db_call: "(\<And>h. C h c) \<Longrightarrow> issues C (db_call cl c)"
  by (rule issuesI, rule exI [of _ "[c]"], rule exI [of _ "[]"])
    (simp add: db_call_def extend_def split: option.splits)

lemma issues_db_fetchall: "(\<And>h. C h Fetchall) \<Longrightarrow> issues C (db_fetchall cl)"
  by (rule issuesI, rule exI [of _ "[Fetchall]"], rule exI [of _ "[]"])
    (simp add: db_fetchall_def extend_def split: option.splits)

lemma issues_db_fetchone: "(\<And>h. C h Fetchone) \<Longrightarrow> issues C (db_fetchone cl)"
  by (rule issuesI, rule exI [of _ "[Fetchone]"], rule exI [of _ "[]"])
    (simp add: db_fetchone_def extend_def split: option.splits)

lemma issues_seq:
  assumes m: "issues C m" and f: "\<And>a. issues C (f a)"
  shows "issues C (seq m f)"
proof (rule issuesI)
  fix w
  obtain r w1 where mw: "m w = (r, w1)"
    by (cases "m w")
  from issuesD [OF m, of w] mw obtain cs ps
    where w1: "w1 = extend w cs ps" and ok: "calls_ok C (calls w) cs"
    by auto
  show "\<exists>cs ps. snd (seq m f w) = extend w cs ps \<and> calls_ok C (calls w) cs"
  proof (cases r)
    case (Inl e)
    with mw have "snd (seq m f w) = w1" by (simp add: seq_def)
    with w1 ok show ?thesis by blast
  next
    case (Inr a)
    with mw have s: "snd (seq m f w) = snd (f a w1)" by (simp add: seq_def)
    from issuesD [OF f, of a w1] obtain cs' ps'
      where "snd (f a w1) = extend w1 cs' ps'" and ok': "calls_ok C (calls w1) cs'"
      by auto
    with s w1 have "snd (seq m f w) = extend w (cs @ cs') (ps @ ps')"
      by simp
    moreover from ok ok' w1 have "calls_ok C (calls w) (cs @ cs')"
      by (simp add: calls_ok_append)
    ultimately show ?thesis by blast
  qed
qed

lemma issues_try_except:
  assumes m: "issues C m" and h: "\<And>e. issues C (h e)"
  shows "issues C (try_except m h)"
proof (rule issuesI)
  fix w
  obtain r w1 where mw: "m w = (r, w1)"
    by (cases "m w")
  from issuesD [OF m, of w] mw obtain cs ps
    where w1: "w1 = extend w cs ps" and ok: "calls_ok C (calls w) cs"
    by auto
  show "\<exists>cs ps. snd (try_except m h w) = extend w cs ps \<and> calls_ok C (calls w) cs"
  proof (cases r)
    case (Inr a)
    with mw have "snd (try_except m h w) = w1" by (simp add: try_except_def)
    with w1 ok show ?thesis by blast
  next
    case (Inl e)
    with mw have s: "snd (try_except m h w) = snd (h e w1)" by (simp add: try_except_def)
    from issuesD [OF h, of e w1] obtain cs' ps'
      where "snd (h e w1) = extend w1 cs' ps'" and ok': "calls_ok C (calls w1) cs'"
      by auto
    with s w1 have "snd (try_except m h w) = extend w (cs @ cs') (ps @ ps')"
      by simp
    moreover from ok ok' w1 have "calls_ok C (calls w) (cs @ cs')"
      by (simp add: calls_ok_append)
    ultimately show ?thesis by blast
  qed
qed

lemmas issues_intros =
  issues_return issues_raise issues_lift issues_print_to issues_seq issues_try_except
  issues_db_call issues_db_fetchall issues_db_fetchone


lemma statement_of_routine_simps [simp]:
  "statement_of_routine cl h (Connect cfg)" "statement_of_routine cl h Cursor"
  "statement_of_routine cl h Fetchall" "statement_of_routine cl h Fetchone"
  "statement_of_routine cl h Commit" "statement_of_routine cl h Lastrowid"
  "statement_of_routine cl h CursorClose" "statement_of_routine cl h ConnClose"
  "statement_of_routine cl h (Execute describe_sql)"
  "statement_of_routine cl h (Execute alter_pk_sql)"
  "statement_of_routine cl h (Execute alter_sql)"
  "statement_of_routine cl h (Execute show_create_sql)"
  "statement_of_routine cl h (Execute insert_sql)"
  by (simp_all add: statement_of_routine_def)

text \<open>
  Lines 89-99: the \<^verbatim>\<open>DELETE\<close> is built from the value that \<^verbatim>\<open>cursor.lastrowid\<close>
  returned after the \<^verbatim>\<open>INSERT\<close> and its commit, and is passed only if that read and the
  \<^verbatim>\<open>print\<close> of line 95 return.
\<close>

lemma issues_insert_then_delete:
  assumes rest: "\<And>test_id. issues (statement_of_routine cl) (k test_id)"
  shows "issues (statement_of_routine cl)
           (seq (db_call cl (Execute insert_sql)) (\<lambda>_.
            seq (db_call cl Commit) (\<lambda>_.
            seq (db_lastrowid cl) (\<lambda>test_id.
            seq (print_to out (line test_id)) (\<lambda>_.
            seq (db_call cl (Execute (delete_sql test_id))) (\<lambda>_. k test_id))))))"
    (is "issues ?C ?m")
proof (rule issuesI)
  fix w :: world
  let ?h = "calls w @ [Execute insert_sql, Commit]"
  let ?t = "lastrowid_value cl ?h"
  show "\<exists>cs ps. snd (?m w) = extend w cs ps \<and> calls_ok ?C (calls w) cs"
  proof (cases "raises cl (calls w) (Execute insert_sql)")
    case (Some e)
    then have "snd (?m w) = extend w [Execute insert_sql] []"
      by (simp add: seq_def db_call_def extend_def)
    moreover have "calls_ok ?C (calls w) [Execute insert_sql]"
      by simp
    ultimately show ?thesis by blast
  next
    case inserted: None
    show ?thesis
    proof (cases "raises cl (calls w @ [Execute insert_sql]) Commit")
      case (Some e)
      with inserted have "snd (?m w) = extend w [Execute insert_sql, Commit] []"
        by (simp add: seq_def db_call_def extend_def)
      moreover have "calls_ok ?C (calls w) [Execute insert_sql, Commit]"
        by simp
      ultimately show ?thesis by blast
    next
      case committed: None
      have upto_read: "calls_ok ?C (calls w) [Execute insert_sql, Commit, Lastrowid]"
        by simp
      show ?thesis
      proof (cases "raises cl ?h Lastrowid")
        case (Some e)
        with inserted committed
        have "snd (?m w) = extend w [Execute insert_sql, Commit, Lastrowid] []"
          by (simp add: seq_def db_call_def db_lastrowid_def extend_def)
        with upto_read show ?thesis by blast
      next
        case read: None
        show ?thesis
        proof (cases "out (printed w) (line ?t)")
          case (Some e)
          with inserted committed read
          have "snd (?m w) = extend w [Execute insert_sql, Commit, Lastrowid] []"
            by (simp add: seq_def db_call_def db_lastrowid_def print_to_def extend_def)
          with upto_read show ?thesis by blast
        next
          case shown: None
          let ?cs = "[Execute insert_sql, Commit, Lastrowid, Execute (delete_sql ?t)]"
          have ok: "calls_ok ?C (calls w) ?cs"
            using read by (simp add: statement_of_routine_def)
          show ?thesis
          proof (cases "raises cl (?h @ [Lastrowid]) (Execute (delete_sql ?t))")
            case (Some e)
            with inserted committed read shown
            have "snd (?m w) = extend w ?cs [line ?t]"
              by (simp add: seq_def db_call_def db_lastrowid_def print_to_def extend_def)
            with ok show ?thesis by blast
          next
            case None
            let ?w = "extend w ?cs [line ?t]"
            from None inserted committed read shown have run: "snd (?m w) = snd (k ?t ?w)"
              by (simp add: seq_def db_call_def db_lastrowid_def print_to_def extend_def)
            from issuesD [OF rest, of ?t ?w] obtain cs ps
              where rest_run: "snd (k ?t ?w) = extend ?w cs ps"
                and rest_ok: "calls_ok ?C (calls ?w) cs"
              by blast
            from run rest_run have "snd (?m w) = extend w (?cs @ cs) ([line ?t] @ ps)"
              by simp
            moreover from ok rest_ok have "calls_ok ?C (calls w) (?cs @ cs)"
              unfolding calls_ok_append by simp
            ultimately show ?thesis by blast
          qed
        qed
      qed
    qed
  qed
qed

lemma issues_check_id_column:
  "issues (statement_of_routine cl) (check_id_column_on out cl node_name columns)"
  unfolding check_id_column_on_def
  by (auto intro!: issues_intros split: list.splits)

lemma issues_alter_handler: "issues (statement_of_routine cl) (alter_handler_on out cl e)"
  unfolding alter_handler_on_def
  by (auto intro!: issues_intros split: py_exception.splits)

lemma issues_apply_fix: "issues (statement_of_routine cl) (apply_fix_on out cl)"
  unfolding apply_fix_on_def
  by (intro issues_intros issues_alter_handler) simp_all

lemma issues_verify_fix: "issues (statement_of_routine cl) (verify_fix_on out cl node_name)"
  unfolding verify_fix_on_def
  by (auto intro!: issues_intros)

lemma issues_test_insert: "issues (statement_of_routine cl) (test_insert_on out cl)"
  unfolding test_insert_on_def
  apply (rule issues_seq [OF issues_print_to])
  apply (rule issues_insert_then_delete)
  apply (intro issues_seq issues_db_call issues_print_to)
  apply simp
  done

lemma issues_after_verification:
  "issues (statement_of_routine cl) (after_verification_on out cl node_name)"
  unfolding after_verification_on_def
  by (intro issues_intros issues_test_insert) simp_all

lemma issues_fix_and_test: "issues (statement_of_routine cl) (fix_and_test_on out cl node_name)"
  unfolding fix_and_test_on_def
  by (intro issues_intros issues_apply_fix issues_verify_fix issues_test_insert) simp_all

lemma issues_fix_node_try:
  "issues (statement_of_routine cl) (fix_node_try_on out cl node_name cfg)"
  unfolding fix_node_try_on_def
  by (auto intro!: issues_intros issues_check_id_column issues_fix_and_test)

lemma issues_fix_node_except:
  "issues (statement_of_routine cl) (fix_node_except_on out node_name e)"
  unfolding fix_node_except_on_def
  by (auto intro!: issues_intros split: py_exception.splits)

lemma issues_fix_node: "issues (statement_of_routine cl) (fix_node_on out cl node_name cfg)"
  unfolding fix_node_on_def
  by (intro issues_intros issues_fix_node_try issues_fix_node_except)

section \<open>When an action returns\<close>















section \<open>C1: the routine returns a boolean\<close>

text \<open>
  Claim C1, as the code has it. For every node configuration, every client none of whose
  calls raises outside the \<^verbatim>\<open>Exception\<close> hierarchy, whatever else the client does and
  wherever it raises, and every console on which \<^verbatim>\<open>print\<close> raises nothing, \<^verbatim>\<open>fix_node\<close>
  returns a boolean: no exception reaches the caller.
\<close>

theorem fix_node_returns_bool:
  assumes "raises_only_Exception cl"
      and "\<forall>shown s. out shown s = None"
  shows "\<exists>b. fst (fix_node_on out cl node_name cfg w) = Inr b"
proof -
  from assms(2) have "out = accepting"
    by (simp add: fun_eq_iff accepting_def)
  moreover from assms(1) obtain b w' where "fix_node cl node_name cfg w = (Inr b, w')"
    using fix_node_no_exception by blast
  ultimately show ?thesis by simp
qed

text \<open>
  The theorem at a host that refuses the connection: the error is reported and the
  outcome is \<^verbatim>\<open>False\<close>.
\<close>

theorem fix_node_returns_bool_witness:
  "raises_only_Exception refusing_client
   \<and> (\<forall>shown s. accepting shown s = None)
   \<and> (\<exists>b. fst (fix_node_on accepting refusing_client ''Central (Node 0)'' cfg0 world0) = Inr b)
   \<and> fst (fix_node_on accepting refusing_client ''Central (Node 0)'' cfg0 world0) = Inr False"
proof -
  have only: "raises_only_Exception refusing_client"
    by (simp add: raises_only_Exception_def refusing_client_def scripted_client_def
        split: call.splits)
  have quiet: "\<forall>shown s. accepting shown s = None"
    by (simp add: accepting_def)
  have "fst (fix_node refusing_client ''Central (Node 0)'' cfg0 world0) = Inr False"
    by (simp add: refusing_client_def node_defs routine_defs action_defs)
  with only quiet fix_node_returns_bool [OF only quiet, of "''Central (Node 0)''" cfg0 world0]
  show ?thesis by blast
qed

text \<open>
  Claim C1 as stated fails: a \<^verbatim>\<open>KeyboardInterrupt\<close> raised inside \<^verbatim>\<open>connect\<close> matches
  neither \<^verbatim>\<open>except\<close> clause of lines 109-114 and leaves \<^verbatim>\<open>fix_node\<close>.
\<close>

theorem fix_node_propagates_interrupt:
  "fst (fix_node interrupted_client ''Central (Node 0)'' cfg0 world0)
     = Inl (PyBaseException ''KeyboardInterrupt'')"
  by (simp add: interrupted_client_def node_defs routine_defs action_defs)

text \<open>
  The second hypothesis cannot be dropped. The \<^verbatim>\<open>print\<close> of lines 110 and 113 stands
  inside the \<^verbatim>\<open>except\<close> clauses, where nothing catches what it raises. On a console
  whose encoding lacks the marks, the banner (lines 39-41), which holds none, is printed; a
  refused connection is caught (line 109), and the report of it, which starts with
  \<open>cross_mark\<close>, raises the error that leaves \<^verbatim>\<open>fix_node\<close>, although the client raises
  inside the \<^verbatim>\<open>Exception\<close> hierarchy only.
\<close>

lemma marks_refused_rule60:
  "marks_refused shown rule60 = None"
  "marks_refused shown (CHR 0x0A # rule60) = None"
  by (auto simp: marks_refused_def rule60_def check_mark_def cross_mark_def
      arrow_mark_def warning_mark_def party_mark_def dest!: str_contains_needs_head)

lemma print_error_in_handler_propagates:
  "raises_only_Exception refusing_client
   \<and> marks_refused [] (hd (banner ''Central (Node 0)'')) = None
   \<and> fst (fix_node_on marks_refused refusing_client ''Central (Node 0)'' cfg0 world0)
       = Inl (PyException (quoted ''charmap'' @ '' codec can't encode character''))"
proof -
  have "raises_only_Exception refusing_client"
    by (simp add: raises_only_Exception_def refusing_client_def scripted_client_def
        split: call.splits)
  moreover have "marks_refused [] (hd (banner ''Central (Node 0)'')) = None"
    by (simp add: banner_def marks_refused_rule60)
  moreover have "marks_refused shown ''Fixing Central (Node 0)'' = None" for shown
    by (simp add: marks_refused_def check_mark_def cross_mark_def
        arrow_mark_def warning_mark_def party_mark_def)
  moreover have "marks_refused shown
      (cross_mark @ '' Error on Central (Node 0): 2003: Can't connect to MySQL server on 10.0.0.10:3306'')
      = Some (PyException (quoted ''charmap'' @ '' codec can't encode character''))" for shown
    by (simp add: marks_refused_def check_mark_def cross_mark_def
        arrow_mark_def warning_mark_def party_mark_def)
  ultimately show ?thesis
    by (simp add: refusing_client_def scripted_client_def cfg0_def world0_def
        fix_node_on_def fix_node_try_on_def fix_node_except_on_def
        seq_def try_except_def return_def raise_def print_to_def db_call_def
        marks_refused_rule60)
qed

section \<open>C2: a node that is already fixed\<close>

lemma fix_node_except_calls: "calls (snd (fix_node_except node_name e w)) = calls w"
  by (cases e) (simp_all add: fix_node_except_on_def seq_print return_def raise_def)

lemma fix_node_except_result:
  "fst (fix_node_except node_name e w) = (case e of PyBaseException t \<Rightarrow> Inl e | _ \<Rightarrow> Inr False)"
  by (cases e) (simp_all add: fix_node_except_on_def seq_print return_def raise_def)

text \<open>
  Claim C2, as the code has it, on a console on which \<^verbatim>\<open>print\<close> raises nothing. When
  \<^verbatim>\<open>DESCRIBE users\<close> returns rows of which the first one named \<^verbatim>\<open>id\<close> has, as its sixth
  field, a \<^verbatim>\<open>str\<close> that contains \<^verbatim>\<open>auto_increment\<close> once lowered, \<^verbatim>\<open>fix_node\<close> makes no
  call after the fetch other than closing the cursor and the connection: no \<^verbatim>\<open>ALTER\<close>,
  \<^verbatim>\<open>INSERT\<close> or \<^verbatim>\<open>DELETE\<close> is issued. If the two \<^verbatim>\<open>close()\<close> calls return, the routine
  returns \<^verbatim>\<open>True\<close> at once. If one of them raises, the routine returns \<^verbatim>\<open>False\<close> when the
  exception is in the \<^verbatim>\<open>Exception\<close> hierarchy, and the exception leaves the routine when
  it is not.
\<close>

theorem already_fixed_returns_early:
  assumes described: "describe_output cl cfg (calls w) = Some columns"
      and id_row: "select_id_column columns = Inr (r # rs)"
      and extra: "5 < length r" "r ! 5 = PStr extra"
      and auto: "str_contains ''auto_increment'' (map lower_char extra)"
  shows "(\<exists>cs. calls (snd (fix_node cl node_name cfg w)) = calls w @ inspect_calls cfg @ cs
            \<and> set cs \<subseteq> {CursorClose, ConnClose})
       \<and> (raises cl (calls w @ inspect_calls cfg) CursorClose = None
            \<and> raises cl (calls w @ inspect_calls cfg @ [CursorClose]) ConnClose = None
          \<longrightarrow> fix_node cl node_name cfg w =
                (Inr True,
                 extend w (inspect_calls cfg @ [CursorClose, ConnClose])
                   (banner node_name @
                    [''1. Checking current table structure...'',
                     ''   '' @ check_mark @ '' AUTO_INCREMENT already set on '' @ node_name])))
       \<and> (\<forall>e. raises cl (calls w @ inspect_calls cfg) CursorClose = Some e
                \<or> (raises cl (calls w @ inspect_calls cfg) CursorClose = None
                   \<and> raises cl (calls w @ inspect_calls cfg @ [CursorClose]) ConnClose = Some e)
          \<longrightarrow> fst (fix_node cl node_name cfg w) =
                (case e of PyBaseException t \<Rightarrow> Inl e | _ \<Rightarrow> Inr False))"
proof -
  let ?w0 = "extend w [] (banner node_name)"
  let ?w1 = "extend w (inspect_calls cfg)
    (banner node_name @
      [''1. Checking current table structure...'',
       ''   '' @ check_mark @ '' AUTO_INCREMENT already set on '' @ node_name])"
  let ?closing = "seq (db_call cl CursorClose) (\<lambda>_. seq (db_call cl ConnClose) (\<lambda>_. return True))"
  let ?rest = "\<lambda>done. if done then return True else fix_and_test cl node_name"
  from extra auto have reported: "reports_auto_increment r = Inr True"
    by (simp add: reports_auto_increment_str)
  have "fix_node_try cl node_name cfg ?w0 =
      seq (check_id_column cl node_name columns) ?rest
        (extend ?w0 (inspect_calls cfg) [''1. Checking current table structure...''])"
    using described by (intro fix_node_try_inspect) simp
  then have run: "fix_node cl node_name cfg w =
      try_except (\<lambda>w'. case ?closing w' of (Inl e, w'') \<Rightarrow> (Inl e, w'') | (Inr done, w'') \<Rightarrow> ?rest done w'')
        (fix_node_except node_name) ?w1"
    by (simp add: fix_node_banner try_except_def seq_def [of "check_id_column _ _ _"]
        check_id_column_already [OF id_row reported])
  consider
    (cursor) e where "raises cl (calls w @ inspect_calls cfg) CursorClose = Some e"
  | (conn) e where "raises cl (calls w @ inspect_calls cfg) CursorClose = None"
      "raises cl (calls w @ inspect_calls cfg @ [CursorClose]) ConnClose = Some e"
  | (closed) "raises cl (calls w @ inspect_calls cfg) CursorClose = None"
      "raises cl (calls w @ inspect_calls cfg @ [CursorClose]) ConnClose = None"
    by (cases "raises cl (calls w @ inspect_calls cfg) CursorClose";
        cases "raises cl (calls w @ inspect_calls cfg @ [CursorClose]) ConnClose") auto
  then show ?thesis
  proof cases
    case cursor
    then have "?closing ?w1 = (Inl e, extend ?w1 [CursorClose] [])"
      by (simp add: seq_def db_call_raises)
    with run have handled: "fix_node cl node_name cfg w =
        fix_node_except node_name e (extend ?w1 [CursorClose] [])"
      by (simp add: try_except_def)
    then have "calls (snd (fix_node cl node_name cfg w)) =
        calls w @ inspect_calls cfg @ [CursorClose]"
      by (simp add: fix_node_except_calls)
    moreover from handled have "fst (fix_node cl node_name cfg w) =
        (case e of PyBaseException t \<Rightarrow> Inl e | _ \<Rightarrow> Inr False)"
      by (simp only: fix_node_except_result)
    ultimately show ?thesis using cursor by simp
  next
    case conn
    then have "?closing ?w1 = (Inl e, extend ?w1 [CursorClose, ConnClose] [])"
      by (simp add: seq_def db_call_raises db_call_returns)
    with run have handled: "fix_node cl node_name cfg w =
        fix_node_except node_name e (extend ?w1 [CursorClose, ConnClose] [])"
      by (simp add: try_except_def)
    then have "calls (snd (fix_node cl node_name cfg w)) =
        calls w @ inspect_calls cfg @ [CursorClose, ConnClose]"
      by (simp add: fix_node_except_calls)
    moreover from handled have "fst (fix_node cl node_name cfg w) =
        (case e of PyBaseException t \<Rightarrow> Inl e | _ \<Rightarrow> Inr False)"
      by (simp only: fix_node_except_result)
    ultimately show ?thesis using conn by simp
  next
    case closed
    then have "?closing ?w1 = (Inr True, extend ?w1 [CursorClose, ConnClose] [])"
      by (simp add: seq_def db_call_returns return_def)
    with run have "fix_node cl node_name cfg w =
        (Inr True, extend ?w1 [CursorClose, ConnClose] [])"
      by (simp add: try_except_def return_def)
    with closed show ?thesis by simp
  qed
qed

text \<open>
  The theorem at a node whose \<^verbatim>\<open>id\<close> column is already \<^verbatim>\<open>auto_increment\<close>, and at
  such a node that loses the connection in \<^verbatim>\<open>conn.close()\<close>.
\<close>

theorem already_fixed_returns_early_witness:
  "describe_output fixed_client cfg0 (calls world0) = Some fixed_columns
   \<and> select_id_column fixed_columns = Inr [hd fixed_columns]
   \<and> hd fixed_columns ! 5 = PStr ''auto_increment''
   \<and> fix_node fixed_client ''Central (Node 0)'' cfg0 world0 =
       (Inr True,
        extend world0 (inspect_calls cfg0 @ [CursorClose, ConnClose])
          (banner ''Central (Node 0)'' @
           [''1. Checking current table structure...'',
            ''   '' @ check_mark @ '' AUTO_INCREMENT already set on Central (Node 0)'']))
   \<and> describe_output lost_on_close_client cfg0 (calls world0) = Some fixed_columns
   \<and> raises lost_on_close_client (calls world0 @ inspect_calls cfg0) CursorClose = None
   \<and> raises lost_on_close_client (calls world0 @ inspect_calls cfg0 @ [CursorClose]) ConnClose =
       Some (MySQLError 2013 ''2013: Lost connection to MySQL server during query'')
   \<and> fst (fix_node lost_on_close_client ''Central (Node 0)'' cfg0 world0) = Inr False"
proof -
  have described: "describe_output fixed_client cfg0 (calls world0) = Some fixed_columns"
    by (simp add: fixed_client_def node_defs)
  have id_row: "select_id_column fixed_columns = Inr (hd fixed_columns # [])"
    by (simp add: fixed_columns_def py_index_def)
  have extra: "5 < length (hd fixed_columns)" "hd fixed_columns ! 5 = PStr ''auto_increment''"
    by (simp_all add: fixed_columns_def)
  have auto: "str_contains ''auto_increment'' (map lower_char ''auto_increment'')"
    by (simp add: lower_char_def)
  have closes: "raises fixed_client (calls world0 @ inspect_calls cfg0) CursorClose = None
      \<and> raises fixed_client (calls world0 @ inspect_calls cfg0 @ [CursorClose]) ConnClose = None"
    by (simp add: fixed_client_def scripted_client_def)
  from already_fixed_returns_early [OF described id_row extra auto, of "''Central (Node 0)''"]
    closes described id_row extra
  have returned: "describe_output fixed_client cfg0 (calls world0) = Some fixed_columns
   \<and> select_id_column fixed_columns = Inr [hd fixed_columns]
   \<and> hd fixed_columns ! 5 = PStr ''auto_increment''
   \<and> fix_node fixed_client ''Central (Node 0)'' cfg0 world0 =
       (Inr True,
        extend world0 (inspect_calls cfg0 @ [CursorClose, ConnClose])
          (banner ''Central (Node 0)'' @
           [''1. Checking current table structure...'',
            ''   '' @ check_mark @ '' AUTO_INCREMENT already set on Central (Node 0)'']))"
    by simp
  have lost: "describe_output lost_on_close_client cfg0 (calls world0) = Some fixed_columns"
    by (simp add: lost_on_close_client_def node_defs)
  have cursor: "raises lost_on_close_client (calls world0 @ inspect_calls cfg0) CursorClose = None"
    and conn: "raises lost_on_close_client (calls world0 @ inspect_calls cfg0 @ [CursorClose])
        ConnClose = Some (MySQLError 2013 ''2013: Lost connection to MySQL server during query'')"
    by (simp_all add: lost_on_close_client_def scripted_client_def)
  from already_fixed_returns_early [OF lost id_row extra auto, of "''Central (Node 0)''"]
    cursor conn
  have "fst (fix_node lost_on_close_client ''Central (Node 0)'' cfg0 world0) = Inr False"
    by simp
  with returned lost cursor conn show ?thesis
    by (intro conjI) simp_all
qed

text \<open>
  Claim C2 as stated fails: on a node that is already fixed, an error raised by
  \<^verbatim>\<open>conn.close()\<close> (line 59, inside the \<^verbatim>\<open>try\<close>) makes the routine return \<^verbatim>\<open>False\<close>.
\<close>

theorem already_fixed_close_error_fails:
  "describe_output lost_on_close_client cfg0 (calls world0) = Some fixed_columns
   \<and> select_id_column fixed_columns = Inr [hd fixed_columns]
   \<and> hd fixed_columns ! 5 = PStr ''auto_increment''
   \<and> fst (fix_node lost_on_close_client ''Central (Node 0)'' cfg0 world0) = Inr False"
  by (simp add: lost_on_close_client_def node_defs routine_defs action_defs)

section \<open>C3: a node with an incomplete configuration\<close>

lemma missing_field_incomplete:
  "host cfg = None \<or> user cfg = None \<or> password cfg = None \<or> database cfg = None \<Longrightarrow>
     \<not> config_complete cfg"
  by (auto simp: config_complete_def truthy_def)

lemma main_calls:
  assumes "main cl node_items w = (Inr results, w')"
  shows "\<exists>cs ps. w' = extend w cs ps \<and> list_all connects_complete cs"
proof -
  from assms obtain w1
    where run: "run_nodes cl node_items [] (extend w [] opening_lines) = (Inr results, w1)"
      and w': "w' = extend w1 [] (summary_lines results)"
    by (rule main_returned)
  from emitsD [OF emits_run_nodes, of cl node_items "[]" "extend w [] opening_lines"] run
  obtain cs ps where "w1 = extend (extend w [] opening_lines) cs ps" "list_all connects_complete cs"
    by auto
  with w' have "w' = extend w cs (opening_lines @ ps @ summary_lines results)"
    "list_all connects_complete cs"
    by simp_all
  then show ?thesis by blast
qed

text \<open>
  Claim C3. For a node whose host, user, password or database name is missing, the body of
  the loop makes no call to the client at all (so \<^verbatim>\<open>fix_node\<close> is not invoked and no
  connection is attempted): it prints that the node is skipped and stores \<^verbatim>\<open>False\<close>
  under the node's name. When \<^verbatim>\<open>main\<close> returns, that entry is still \<^verbatim>\<open>False\<close> and the
  run has made no connection with the node's configuration.
\<close>

theorem incomplete_node_is_skipped:
  assumes "host cfg = None \<or> user cfg = None \<or> password cfg = None \<or> database cfg = None"
  shows "node_step cl (node_name, cfg) results w =
           (Inr (AList.update node_name False results),
            extend w []
              [[CHR 0x0A] @ warning_mark @ '' Skipping '' @ node_name @
                 '' - incomplete configuration''])
       \<and> (distinct (map fst node_items) \<and> (node_name, cfg) \<in> set node_items
            \<and> main cl node_items w = (Inr final, w')
          \<longrightarrow> map_of final node_name = Some False
              \<and> (\<exists>cs ps. w' = extend w cs ps \<and> Connect cfg \<notin> set cs))"
proof -
  from assms have incomplete: "\<not> config_complete cfg"
    by (rule missing_field_incomplete)
  have "map_of final node_name = Some False \<and> (\<exists>cs ps. w' = extend w cs ps \<and> Connect cfg \<notin> set cs)"
    if keys: "distinct (map fst node_items)" and listed: "(node_name, cfg) \<in> set node_items"
      and returned: "main cl node_items w = (Inr final, w')"
  proof -
    from returned obtain w1
      where "run_nodes cl node_items [] (extend w [] opening_lines) = (Inr final, w1)"
      by (rule main_returned)
    from run_nodes_skipped [OF this keys listed incomplete]
    have "map_of final node_name = Some False" .
    moreover from main_calls [OF returned] obtain cs ps
      where w': "w' = extend w cs ps" and all: "list_all connects_complete cs"
      by blast
    from all incomplete have "Connect cfg \<notin> set cs"
      by (auto simp: list_all_iff connects_complete_def)
    with w' have "\<exists>cs ps. w' = extend w cs ps \<and> Connect cfg \<notin> set cs"
      by blast
    ultimately show ?thesis by blast
  qed
  with node_step_skip [OF incomplete] show ?thesis by blast
qed

lemma outage_run:
  "main outage_client (nodes cfg0 cfg1 cfg2) world0 =
     (Inr [(''Central (Node 0)'', True), (''Partition 1 (Node 1)'', False),
           (''Partition 2 (Node 2)'', False)],
      extend world0
        [Connect cfg0, Cursor, Execute describe_sql, Fetchall, Execute alter_pk_sql, Commit,
         Execute show_create_sql, Fetchone, Execute insert_sql, Commit, Lastrowid,
         Execute (delete_sql (Some 7)), Commit, CursorClose, ConnClose, Connect cfg2]
        (opening_lines @
         banner ''Central (Node 0)'' @
         [''1. Checking current table structure...'',
          ''   '' @ cross_mark @ '' AUTO_INCREMENT NOT set on Central (Node 0)'',
          ''2. Applying AUTO_INCREMENT fix...'',
          ''   '' @ check_mark @ '' ALTER TABLE executed successfully'',
          ''3. Verifying fix...'',
          ''   '' @ check_mark @ '' Central (Node 0) fixed successfully!'',
          ''4. Testing auto-increment with test insert...'',
          ''   '' @ check_mark @ '' Test insert successful! Auto-generated ID: 7'',
          ''   '' @ check_mark @ '' Test data cleaned up'',
          check_mark @ '' Central (Node 0) is ready!'',
          [CHR 0x0A] @ warning_mark @
            '' Skipping Partition 1 (Node 1) - incomplete configuration''] @
         banner ''Partition 2 (Node 2)'' @
         [cross_mark @ '' Error on Partition 2 (Node 2): 2003: Can't connect to MySQL server on 10.0.0.12:3306'',
          [CHR 0x0A] @ rule60, ''SUMMARY'', rule60,
          ''Central (Node 0): '' @ check_mark @ '' FIXED'',
          ''Partition 1 (Node 1): '' @ cross_mark @ '' FAILED'',
          ''Partition 2 (Node 2): '' @ cross_mark @ '' FAILED'',
          [CHR 0x0A] @ ''Total: 1/3 nodes fixed successfully'',
          [CHR 0x0A] @ warning_mark @ '' Some nodes failed. Check error messages above.'',
          ''   You may need to run the SQL commands manually.'']))"
proof -
  have first: "fix_node outage_client ''Central (Node 0)'' cfg0 w =
      (Inr True,
       extend w
        [Connect cfg0, Cursor, Execute describe_sql, Fetchall, Execute alter_pk_sql, Commit,
         Execute show_create_sql, Fetchone, Execute insert_sql, Commit, Lastrowid,
         Execute (delete_sql (Some 7)), Commit, CursorClose, ConnClose]
        (banner ''Central (Node 0)'' @
         [''1. Checking current table structure...'',
          ''   '' @ cross_mark @ '' AUTO_INCREMENT NOT set on Central (Node 0)'',
          ''2. Applying AUTO_INCREMENT fix...'',
          ''   '' @ check_mark @ '' ALTER TABLE executed successfully'',
          ''3. Verifying fix...'',
          ''   '' @ check_mark @ '' Central (Node 0) fixed successfully!'',
          ''4. Testing auto-increment with test insert...'',
          ''   '' @ check_mark @ '' Test insert successful! Auto-generated ID: 7'',
          ''   '' @ check_mark @ '' Test data cleaned up'',
          check_mark @ '' Central (Node 0) is ready!'']))" for w
    by (simp add: outage_client_def scripted_client_def cfg0_def cfg2_def unfixed_columns_def
        created_with_marker_def banner_def extend_def routine_defs action_defs)
  have third: "fix_node outage_client ''Partition 2 (Node 2)'' cfg2 w =
      (Inr False,
       extend w [Connect cfg2]
        (banner ''Partition 2 (Node 2)'' @
         [cross_mark @ '' Error on Partition 2 (Node 2): 2003: Can't connect to MySQL server on 10.0.0.12:3306'']))"
    for w
    by (simp add: outage_client_def scripted_client_def banner_def extend_def
        routine_defs action_defs)
  have complete: "config_complete cfg0" "\<not> config_complete cfg1" "config_complete cfg2"
    by (simp_all add: config_complete_def truthy_def cfg0_def cfg1_def cfg2_def)
  have loop: "run_nodes outage_client (nodes cfg0 cfg1 cfg2) [] w =
      (Inr [(''Central (Node 0)'', True), (''Partition 1 (Node 1)'', False),
            (''Partition 2 (Node 2)'', False)],
       snd (fix_node outage_client ''Partition 2 (Node 2)'' cfg2
         (extend (snd (fix_node outage_client ''Central (Node 0)'' cfg0 w)) []
            [[CHR 0x0A] @ warning_mark @
               '' Skipping Partition 1 (Node 1) - incomplete configuration''])))" for w
    by (simp add: nodes_def seq_def node_step_fix node_step_skip complete first third return_def)
  show ?thesis
    by (simp add: main_run_nodes loop first third summary_lines_def status_line_def
        total_line_def closing_lines_def success_count_def total_count_def str_nat.simps)
qed

text \<open>
  The theorem on the three nodes of the script when the password of the second is not
  set: the second node is recorded as failed and only the two others are connected to.
\<close>

theorem incomplete_node_is_skipped_witness:
  "password cfg1 = None
   \<and> distinct (map fst (nodes cfg0 cfg1 cfg2))
   \<and> (''Partition 1 (Node 1)'', cfg1) \<in> set (nodes cfg0 cfg1 cfg2)
   \<and> fst (main outage_client (nodes cfg0 cfg1 cfg2) world0) =
       Inr [(''Central (Node 0)'', True), (''Partition 1 (Node 1)'', False),
            (''Partition 2 (Node 2)'', False)]
   \<and> filter (\<lambda>c. \<exists>cfg. c = Connect cfg)
        (calls (snd (main outage_client (nodes cfg0 cfg1 cfg2) world0))) =
       [Connect cfg0, Connect cfg2]
   \<and> (\<exists>cs ps. snd (main outage_client (nodes cfg0 cfg1 cfg2) world0) = extend world0 cs ps
         \<and> Connect cfg1 \<notin> set cs)"
proof -
  have missing: "host cfg1 = None \<or> user cfg1 = None \<or> password cfg1 = None \<or> database cfg1 = None"
    by (simp add: cfg1_def)
  have keys: "distinct (map fst (nodes cfg0 cfg1 cfg2))"
    by (simp add: nodes_def)
  have listed: "(''Partition 1 (Node 1)'', cfg1) \<in> set (nodes cfg0 cfg1 cfg2)"
    by (simp add: nodes_def)
  note run = outage_run
  from incomplete_node_is_skipped [OF missing, of outage_client "''Partition 1 (Node 1)''" "[]"
      world0 "nodes cfg0 cfg1 cfg2"] keys listed run
  have "\<exists>cs ps. snd (main outage_client (nodes cfg0 cfg1 cfg2) world0) = extend world0 cs ps
         \<and> Connect cfg1 \<notin> set cs"
    by auto
  moreover have "calls (snd (main outage_client (nodes cfg0 cfg1 cfg2) world0)) =
      calls world0 @
        [Connect cfg0, Cursor, Execute describe_sql, Fetchall, Execute alter_pk_sql, Commit,
         Execute show_create_sql, Fetchone, Execute insert_sql, Commit, Lastrowid,
         Execute (delete_sql (Some 7)), Commit, CursorClose, ConnClose, Connect cfg2]"
    by (simp add: run)
  then have "filter (\<lambda>c. \<exists>cfg. c = Connect cfg)
        (calls (snd (main outage_client (nodes cfg0 cfg1 cfg2) world0))) =
       [Connect cfg0, Connect cfg2]"
    by (simp add: world0_def)
  ultimately show ?thesis
    using keys listed run by (simp add: cfg1_def)
qed

section \<open>C4: an error of the \<^verbatim>\<open>ALTER\<close> other than error 1068\<close>

text \<open>
  What lines 66-74 do with a \<^verbatim>\<open>mysql.connector.Error\<close> of the first \<^verbatim>\<open>ALTER\<close>: the
  text of the error decides, not its number.
\<close>

lemma alter_error_with_1068_takes_fallback:
  assumes "raises cl (calls w) (Execute alter_pk_sql) = Some (MySQLError errno msg)"
      and "str_contains ''1068'' msg"
  shows "apply_fix cl w =
           seq (db_call cl (Execute alter_sql))
             (\<lambda>_. seq (db_call cl Commit)
               (\<lambda>_. print (''   '' @ check_mark @ '' ALTER TABLE executed successfully'')))
             (extend w [Execute alter_pk_sql]
                [''2. Applying AUTO_INCREMENT fix...'',
                 ''   '' @ arrow_mark @
                   '' Primary key already exists, trying without PRIMARY KEY clause...''])"
  using assms
  by (simp add: apply_fix_on_def seq_print try_except_def db_call_raises alter_handler_on_def
      seq_def [of "try_except _ _"] seq_def [of "db_call cl (Execute alter_sql)"])

lemma alter_error_without_1068_is_raised:
  assumes "raises cl (calls w) (Execute alter_pk_sql) = Some (MySQLError errno msg)"
      and "\<not> str_contains ''1068'' msg"
  shows "apply_fix cl w =
           (Inl (MySQLError errno msg),
            extend w [Execute alter_pk_sql] [''2. Applying AUTO_INCREMENT fix...''])"
  using assms
  by (simp add: apply_fix_on_def seq_print try_except_def db_call_raises alter_handler_on_def
      seq_def [of "try_except _ _"] raise_def)

lemma multiple_primary_key_text: "str_contains ''1068'' ''1068 (42000): Multiple primary key defined''"
  by simp

text \<open>
  Claim C4 at a table with a duplicate \<^verbatim>\<open>id\<close> of 1068. The \<^verbatim>\<open>ALTER\<close> with
  \<^verbatim>\<open>PRIMARY KEY\<close> fails with error 1062, not 1068; its text contains \<^verbatim>\<open>1068\<close>, so line 70
  takes it for the multiple-primary-key error: the routine passes the \<^verbatim>\<open>ALTER\<close> without
  the clause, goes on to the test insert and returns \<^verbatim>\<open>True\<close>.
\<close>

theorem other_error_takes_fallback:
  "raises duplicate_1068_client
     [Connect cfg0, Cursor, Execute describe_sql, Fetchall] (Execute alter_pk_sql) =
     Some duplicate_entry_error
   \<and> (\<exists>text. duplicate_entry_error = MySQLError 1062 text)
   \<and> fst (fix_node duplicate_1068_client ''Central (Node 0)'' cfg0 world0) = Inr True
   \<and> calls (snd (fix_node duplicate_1068_client ''Central (Node 0)'' cfg0 world0)) =
       [Connect cfg0, Cursor, Execute describe_sql, Fetchall, Execute alter_pk_sql,
        Execute alter_sql, Commit, Execute show_create_sql, Fetchone, Execute insert_sql,
        Commit, Lastrowid, Execute (delete_sql (Some 1069)), Commit, CursorClose, ConnClose]"
  by (simp add: duplicate_1068_client_def duplicate_entry_error_def scripted_client_def
      world0_def indexed_columns_def created_with_marker_def routine_defs action_defs
      describe_sql_def alter_pk_sql_def alter_sql_def show_create_sql_def insert_sql_def)

section \<open>C5: success and the attribute\<close>



section \<open>C6: a verification that fails\<close>

text \<open>
  Claim C6. Take a run of \<^verbatim>\<open>fix_node\<close> in which the check of lines 53-62 does not return,
  the \<^verbatim>\<open>ALTER\<close> is committed (the world is then \<open>w1\<close>), and \<^verbatim>\<open>SHOW CREATE TABLE users\<close>
  and the fetch return a row whose second field is a \<^verbatim>\<open>str\<close> without \<^verbatim>\<open>AUTO_INCREMENT\<close>.
  Then the routine prints that the verification failed and does not stop: its next text is
  that of line 88 and its next call the test \<^verbatim>\<open>INSERT\<close>. And the verdict has no effect on
  the boolean: had the fetch returned any other \<^verbatim>\<open>str\<close> at that point (one with the marker,
  say), \<^verbatim>\<open>fix_node\<close> would have returned the same value.
\<close>

theorem verification_failure_is_not_fatal:
  assumes described: "describe_output cl cfg (calls w) = Some columns"
      and checked: "check_id_column cl node_name columns
          (extend w (inspect_calls cfg)
             (banner node_name @ [''1. Checking current table structure...''])) = (Inr False, wa)"
      and applied: "apply_fix cl wa = (Inr (), w1)"
      and shown: "raises cl (calls w1) (Execute show_create_sql) = None"
      and fetched: "raises cl (calls w1 @ [Execute show_create_sql]) Fetchone = None"
      and row: "fetchone_row cl (calls w1 @ [Execute show_create_sql]) = Some t"
        "1 < length t" "t ! 1 = PStr create_table"
      and missing: "\<not> str_contains ''AUTO_INCREMENT'' create_table"
      and other: "f (calls w1 @ [Execute show_create_sql]) = Some t'"
        "1 < length t'" "t' ! 1 = PStr other_table"
  shows "(\<exists>cs ps. snd (fix_node cl node_name cfg w) =
            extend w1 ([Execute show_create_sql, Fetchone, Execute insert_sql] @ cs)
              ([''3. Verifying fix...'',
                ''   '' @ cross_mark @ '' Verification failed on '' @ node_name,
                ''4. Testing auto-increment with test insert...''] @ ps))
       \<and> fst (fix_node (cl\<lparr>fetchone_row := f\<rparr>) node_name cfg w) =
           fst (fix_node cl node_name cfg w)"
proof (intro conjI)
  let ?handled = "try_except (after_verification cl node_name) (fix_node_except node_name)"
  let ?w2 = "extend w1 [Execute show_create_sql, Fetchone]
    [''3. Verifying fix...'', ''   '' @ cross_mark @ '' Verification failed on '' @ node_name]"
  from verify_fix_verdict [OF shown fetched row, of node_name] missing
  have verified: "verify_fix cl node_name w1 = (Inr (), ?w2)"
    by simp
  have run: "fix_node cl node_name cfg w = ?handled ?w2"
    by (rule fix_node_from_verification [OF described checked applied verified])
  from after_verification_starts [of cl node_name ?w2] obtain cs ps where
    "snd (after_verification cl node_name ?w2) =
       extend ?w2 ([Execute insert_sql] @ cs)
         ([''4. Testing auto-increment with test insert...''] @ ps)"
    by blast
  then have "\<exists>cs' ps'. snd (?handled ?w2) =
      extend ?w2 (([Execute insert_sql] @ cs) @ cs')
        (([''4. Testing auto-increment with test insert...''] @ ps) @ ps')"
    by (rule try_extends [where C = "routine_call cfg" and L = "\<lambda>_. True"])
      (rule emits_fix_node_except)
  then obtain cs' ps' where "snd (fix_node cl node_name cfg w) =
      extend w1 ([Execute show_create_sql, Fetchone, Execute insert_sql] @ (cs @ cs'))
        ([''3. Verifying fix...'',
          ''   '' @ cross_mark @ '' Verification failed on '' @ node_name,
          ''4. Testing auto-increment with test insert...''] @ (ps @ ps'))"
    unfolding run by auto
  then show "\<exists>cs ps. snd (fix_node cl node_name cfg w) =
      extend w1 ([Execute show_create_sql, Fetchone, Execute insert_sql] @ cs)
        ([''3. Verifying fix...'',
          ''   '' @ cross_mark @ '' Verification failed on '' @ node_name,
          ''4. Testing auto-increment with test insert...''] @ ps)"
    by blast
  let ?cl' = "cl\<lparr>fetchone_row := f\<rparr>"
  let ?w2' = "extend w1 [Execute show_create_sql, Fetchone]
    [''3. Verifying fix...'',
     if str_contains ''AUTO_INCREMENT'' other_table
     then ''   '' @ check_mark @ '' '' @ node_name @ '' fixed successfully!''
     else ''   '' @ cross_mark @ '' Verification failed on '' @ node_name]"
  from other have other_row: "fetchone_row ?cl' (calls w1 @ [Execute show_create_sql]) = Some t'"
    "1 < length t'" "t' ! 1 = PStr other_table"
    by simp_all
  from shown fetched
  have "raises ?cl' (calls w1) (Execute show_create_sql) = None"
    "raises ?cl' (calls w1 @ [Execute show_create_sql]) Fetchone = None"
    by simp_all
  from verify_fix_verdict [OF this other_row, of node_name]
  have verified': "verify_fix ?cl' node_name w1 = (Inr (), ?w2')" .
  have described': "describe_output ?cl' cfg (calls w) = Some columns"
    by (simp add: describe_output_other_definition described)
  have checked': "check_id_column ?cl' node_name columns
      (extend w (inspect_calls cfg)
         (banner node_name @ [''1. Checking current table structure...''])) = (Inr False, wa)"
    by (simp add: check_id_column_other_definition checked)
  have applied': "apply_fix ?cl' wa = (Inr (), w1)"
    by (simp add: apply_fix_other_definition applied)
  have "fix_node ?cl' node_name cfg w =
      try_except (after_verification ?cl' node_name) (fix_node_except node_name) ?w2'"
    by (rule fix_node_from_verification [OF described' checked' applied' verified'])
  then have run': "fix_node ?cl' node_name cfg w = ?handled ?w2'"
    by (simp add: after_verification_other_definition)
  have "calls ?w2' = calls ?w2"
    by simp
  from blindD [OF blind_after_verification this, of cl node_name]
  show "fst (fix_node ?cl' node_name cfg w) = fst (fix_node cl node_name cfg w)"
    by (simp add: run run')
qed

text \<open>
  The theorem at the node whose table definition comes back without the marker; with the
  definition that has the marker the outcome is the same.
\<close>

theorem verification_failure_is_not_fatal_witness:
  "describe_output unverified_client cfg0 (calls world0) = Some unfixed_columns
   \<and> fetchone_row unverified_client [] = created_without_marker
   \<and> (\<exists>cs ps. snd (fix_node unverified_client ''Central (Node 0)'' cfg0 world0) =
        extend world0
          (inspect_calls cfg0 @ [Execute alter_pk_sql, Commit] @
           [Execute show_create_sql, Fetchone, Execute insert_sql] @ cs)
          (banner ''Central (Node 0)'' @
           [''1. Checking current table structure...'',
            ''   '' @ cross_mark @ '' AUTO_INCREMENT NOT set on Central (Node 0)'',
            ''2. Applying AUTO_INCREMENT fix...'',
            ''   '' @ check_mark @ '' ALTER TABLE executed successfully''] @
           [''3. Verifying fix...'',
            ''   '' @ cross_mark @ '' Verification failed on Central (Node 0)'',
            ''4. Testing auto-increment with test insert...''] @ ps))
   \<and> fst (fix_node (unverified_client\<lparr>fetchone_row := \<lambda>h. created_with_marker\<rparr>)
            ''Central (Node 0)'' cfg0 world0) =
       fst (fix_node unverified_client ''Central (Node 0)'' cfg0 world0)"
proof -
  define wi where "wi = extend world0 (inspect_calls cfg0)
    (banner ''Central (Node 0)'' @ [''1. Checking current table structure...''])"
  define wa where
    "wa = extend wi [] [''   '' @ cross_mark @ '' AUTO_INCREMENT NOT set on Central (Node 0)'']"
  define w1 where "w1 = extend wa [Execute alter_pk_sql, Commit]
    [''2. Applying AUTO_INCREMENT fix...'',
     ''   '' @ check_mark @ '' ALTER TABLE executed successfully'']"
  define t where "t = [PStr ''users'', PStr ''CREATE TABLE users (id int NOT NULL)'']"
  define t' where "t' = [PStr ''users'',
    PStr ''CREATE TABLE users (id int NOT NULL AUTO_INCREMENT, PRIMARY KEY (id))'']"
  have described: "describe_output unverified_client cfg0 (calls world0) = Some unfixed_columns"
    by (simp add: unverified_client_def node_defs)
  have checked: "check_id_column unverified_client ''Central (Node 0)'' unfixed_columns
      (extend world0 (inspect_calls cfg0)
         (banner ''Central (Node 0)'' @ [''1. Checking current table structure...''])) =
      (Inr False, wa)"
    by (simp add: wa_def wi_def unverified_client_def node_defs routine_defs action_defs)
  have applied: "apply_fix unverified_client wa = (Inr (), w1)"
    by (simp add: w1_def unverified_client_def node_defs routine_defs action_defs)
  have shown: "raises unverified_client (calls w1) (Execute show_create_sql) = None"
    and fetched: "raises unverified_client (calls w1 @ [Execute show_create_sql]) Fetchone = None"
    and row: "fetchone_row unverified_client (calls w1 @ [Execute show_create_sql]) = Some t"
      "1 < length t" "t ! 1 = PStr ''CREATE TABLE users (id int NOT NULL)''"
    by (simp_all add: t_def unverified_client_def scripted_client_def created_without_marker_def)
  have missing: "\<not> str_contains ''AUTO_INCREMENT'' ''CREATE TABLE users (id int NOT NULL)''"
    by simp
  have other: "created_with_marker = Some t'" "1 < length t'"
    "t' ! 1 = PStr ''CREATE TABLE users (id int NOT NULL AUTO_INCREMENT, PRIMARY KEY (id))''"
    by (simp_all add: t'_def created_with_marker_def)
  note inst = verification_failure_is_not_fatal
    [where f = "\<lambda>h. created_with_marker",
     OF described checked applied shown fetched row missing other]
  have world: "extend w1 cs ps =
      extend world0 (inspect_calls cfg0 @ [Execute alter_pk_sql, Commit] @ cs)
        (banner ''Central (Node 0)'' @
           [''1. Checking current table structure...'',
            ''   '' @ cross_mark @ '' AUTO_INCREMENT NOT set on Central (Node 0)'',
            ''2. Applying AUTO_INCREMENT fix...'',
            ''   '' @ check_mark @ '' ALTER TABLE executed successfully''] @ ps)" for cs ps
    by (simp add: w1_def wa_def wi_def)
  from inst have "\<exists>cs ps. snd (fix_node unverified_client ''Central (Node 0)'' cfg0 world0) =
      extend w1 ([Execute show_create_sql, Fetchone, Execute insert_sql] @ cs)
        ([''3. Verifying fix...'',
          ''   '' @ cross_mark @ '' Verification failed on '' @ ''Central (Node 0)'',
          ''4. Testing auto-increment with test insert...''] @ ps)"
    by (rule conjunct1)
  then have first: "\<exists>cs ps. snd (fix_node unverified_client ''Central (Node 0)'' cfg0 world0) =
        extend world0
          (inspect_calls cfg0 @ [Execute alter_pk_sql, Commit] @
           [Execute show_create_sql, Fetchone, Execute insert_sql] @ cs)
          (banner ''Central (Node 0)'' @
           [''1. Checking current table structure...'',
            ''   '' @ cross_mark @ '' AUTO_INCREMENT NOT set on Central (Node 0)'',
            ''2. Applying AUTO_INCREMENT fix...'',
            ''   '' @ check_mark @ '' ALTER TABLE executed successfully''] @
           [''3. Verifying fix...'',
            ''   '' @ cross_mark @ '' Verification failed on Central (Node 0)'',
            ''4. Testing auto-increment with test insert...''] @ ps)"
    unfolding world by simp
  from inst
  have second: "fst (fix_node (unverified_client\<lparr>fetchone_row := \<lambda>h. created_with_marker\<rparr>)
            ''Central (Node 0)'' cfg0 world0) =
       fst (fix_node unverified_client ''Central (Node 0)'' cfg0 world0)"
    by (rule conjunct2)
  have third: "fetchone_row unverified_client [] = created_without_marker"
    by (simp add: unverified_client_def scripted_client_def)
  from described third first second show ?thesis
    by (intro conjI)
qed

section \<open>C7: the results and the summary\<close>

text \<open>
  Claim C7. The dictionary \<^verbatim>\<open>nodes\<close> has distinct keys. Whenever \<^verbatim>\<open>main\<close> returns, and it
  does unless a call of the client raises outside \<^verbatim>\<open>Exception\<close>: \<^verbatim>\<open>results\<close> has one
  entry per configured node, in the order of the loop; the number printed as successes
  counts the nodes whose entry is true and the total is the number of configured nodes;
  and the status lines, printed before the total, are one per configured node, in the same
  order, each starting with the node's name.
\<close>

theorem summary_matches_results:
  assumes "distinct (map fst node_items)"
  shows "(raises_only_Exception cl \<longrightarrow> (\<exists>results w'. main cl node_items w = (Inr results, w')))
       \<and> (\<forall>results w'. main cl node_items w = (Inr results, w') \<longrightarrow>
            map fst results = map fst node_items
          \<and> success_count results =
              length (filter (\<lambda>node_name. map_of results node_name = Some True)
                        (map fst node_items))
          \<and> total_count results = length node_items
          \<and> map status_line results =
              map (\<lambda>node_name. node_name @ '': '' @
                     (if map_of results node_name = Some True then check_mark @ '' FIXED''
                      else cross_mark @ '' FAILED''))
                  (map fst node_items)
          \<and> (\<exists>before. printed w' =
                before @ map status_line results @
                  [[CHR 0x0A] @ ''Total: '' @ str_nat (success_count results) @ ''/'' @
                     str_nat (total_count results) @ '' nodes fixed successfully'']
                  @ closing_lines results))"
proof (intro conjI impI allI)
  assume "raises_only_Exception cl"
  from run_nodes_returns [OF this, of node_items "[]" "extend w [] opening_lines"]
  show "\<exists>results w'. main cl node_items w = (Inr results, w')"
    by (auto simp: main_run_nodes)
next
  fix results w'
  assume returned: "main cl node_items w = (Inr results, w')"
  then obtain w1
    where run: "run_nodes cl node_items [] (extend w [] opening_lines) = (Inr results, w1)"
      and w': "w' = extend w1 [] (summary_lines results)"
    by (rule main_returned)
  from run_nodes_keys [OF run assms] show keys: "map fst results = map fst node_items"
    by simp
  with assms have distinct: "distinct (map fst results)"
    by simp
  from success_count_by_name [OF distinct] keys
  show "success_count results =
      length (filter (\<lambda>node_name. map_of results node_name = Some True) (map fst node_items))"
    by simp
  from keys have "length (map fst results) = length (map fst node_items)"
    by simp
  then show "total_count results = length node_items"
    by (simp add: total_count_def)
  from status_line_by_name [OF distinct] keys
  show "map status_line results =
      map (\<lambda>node_name. node_name @ '': '' @
             (if map_of results node_name = Some True then check_mark @ '' FIXED''
              else cross_mark @ '' FAILED''))
          (map fst node_items)"
    by simp
  from w' have "printed w' =
      (printed w1 @ [[CHR 0x0A] @ rule60, ''SUMMARY'', rule60]) @ map status_line results @
        [[CHR 0x0A] @ ''Total: '' @ str_nat (success_count results) @ ''/'' @
           str_nat (total_count results) @ '' nodes fixed successfully'']
        @ closing_lines results"
    by (simp add: summary_lines_def total_line_def)
  then show "\<exists>before. printed w' =
      before @ map status_line results @
        [[CHR 0x0A] @ ''Total: '' @ str_nat (success_count results) @ ''/'' @
           str_nat (total_count results) @ '' nodes fixed successfully'']
        @ closing_lines results"
    by blast
qed

text \<open>The theorem on the same three nodes: one success out of three.\<close>

theorem summary_matches_results_witness:
  "distinct (map fst (nodes cfg0 cfg1 cfg2))
   \<and> raises_only_Exception outage_client
   \<and> fst (main outage_client (nodes cfg0 cfg1 cfg2) world0) =
       Inr [(''Central (Node 0)'', True), (''Partition 1 (Node 1)'', False),
            (''Partition 2 (Node 2)'', False)]
   \<and> map fst [(''Central (Node 0)'', True), (''Partition 1 (Node 1)'', False),
              (''Partition 2 (Node 2)'', False)] = map fst (nodes cfg0 cfg1 cfg2)
   \<and> success_count [(''Central (Node 0)'', True), (''Partition 1 (Node 1)'', False),
                    (''Partition 2 (Node 2)'', False)] = 1
   \<and> total_count [(''Central (Node 0)'', True), (''Partition 1 (Node 1)'', False),
                  (''Partition 2 (Node 2)'', False)] = 3
   \<and> drop 26 (printed (snd (main outage_client (nodes cfg0 cfg1 cfg2) world0))) =
       [''Central (Node 0): '' @ check_mark @ '' FIXED'',
        ''Partition 1 (Node 1): '' @ cross_mark @ '' FAILED'',
        ''Partition 2 (Node 2): '' @ cross_mark @ '' FAILED'',
        [CHR 0x0A] @ ''Total: 1/3 nodes fixed successfully'',
        [CHR 0x0A] @ warning_mark @ '' Some nodes failed. Check error messages above.'',
        ''   You may need to run the SQL commands manually.'']"
proof -
  have keys: "distinct (map fst (nodes cfg0 cfg1 cfg2))"
    by (simp add: nodes_def)
  have only: "raises_only_Exception outage_client"
    by (simp add: raises_only_Exception_def outage_client_def scripted_client_def)
  note run = outage_run
  from summary_matches_results [OF keys, of outage_client world0] only run
  have "map fst [(''Central (Node 0)'', True), (''Partition 1 (Node 1)'', False),
                 (''Partition 2 (Node 2)'', False)] = map fst (nodes cfg0 cfg1 cfg2)
      \<and> success_count [(''Central (Node 0)'', True), (''Partition 1 (Node 1)'', False),
                       (''Partition 2 (Node 2)'', False)] =
          length (filter (\<lambda>node_name.
              map_of [(''Central (Node 0)'', True), (''Partition 1 (Node 1)'', False),
                      (''Partition 2 (Node 2)'', False)] node_name = Some True)
            (map fst (nodes cfg0 cfg1 cfg2)))
      \<and> total_count [(''Central (Node 0)'', True), (''Partition 1 (Node 1)'', False),
                     (''Partition 2 (Node 2)'', False)] = length (nodes cfg0 cfg1 cfg2)"
    by blast
  moreover have "length (printed (snd (main outage_client (nodes cfg0 cfg1 cfg2) world0))) = 32
      \<and> drop 26 (printed (snd (main outage_client (nodes cfg0 cfg1 cfg2) world0))) =
       [''Central (Node 0): '' @ check_mark @ '' FIXED'',
        ''Partition 1 (Node 1): '' @ cross_mark @ '' FAILED'',
        ''Partition 2 (Node 2): '' @ cross_mark @ '' FAILED'',
        [CHR 0x0A] @ ''Total: 1/3 nodes fixed successfully'',
        [CHR 0x0A] @ warning_mark @ '' Some nodes failed. Check error messages above.'',
        ''   You may need to run the SQL commands manually.'']"
    unfolding run by (simp add: world0_def opening_lines_def banner_def extend_def)
  moreover have "success_count [(''Central (Node 0)'', True), (''Partition 1 (Node 1)'', False),
                    (''Partition 2 (Node 2)'', False)] = 1"
    "total_count [(''Central (Node 0)'', True), (''Partition 1 (Node 1)'', False),
                  (''Partition 2 (Node 2)'', False)] = 3"
    by (simp_all add: success_count_def total_count_def)
  moreover have "fst (main outage_client (nodes cfg0 cfg1 cfg2) world0) =
       Inr [(''Central (Node 0)'', True), (''Partition 1 (Node 1)'', False),
            (''Partition 2 (Node 2)'', False)]"
    by (simp add: run)
  ultimately show ?thesis
    using keys only by blast
qed

section \<open>C8: the texts passed to \<^verbatim>\<open>cursor.execute\<close>\<close>

lemma script_texts_as_specified:
  "describe_sql = spec_describe_sql"
  "alter_pk_sql = spec_alter_pk_sql"
  "alter_sql = spec_alter_sql"
  "show_create_sql = spec_show_create_sql"
  "delete_sql test_id = spec_delete_sql (format_rowid test_id)"
  by (simp_all add: describe_sql_def spec_describe_sql_def alter_pk_sql_def spec_alter_pk_sql_def
      alter_sql_def spec_alter_sql_def show_create_sql_def spec_show_create_sql_def
      delete_sql_def spec_delete_sql_def)

lemma insert_sql_squeezed: "squeeze insert_sql = squeeze spec_insert_sql"
  by (simp add: squeeze_def insert_sql_def spec_insert_sql_def)

text \<open>
  Claim C8, as the code has it. For every client and every console, whatever \<^verbatim>\<open>fix_node\<close>
  passes to \<^verbatim>\<open>cursor.execute\<close> is one of six texts. Four are, character for character,
  statements of the specification: the \<^verbatim>\<open>DESCRIBE\<close>, the two \<^verbatim>\<open>ALTER\<close>s and the
  \<^verbatim>\<open>SHOW CREATE TABLE\<close>. One is the triple-quoted \<^verbatim>\<open>INSERT\<close> of lines 89-92, which agrees
  with the specification's \<^verbatim>\<open>INSERT\<close> once blanks and line breaks are left out of both.
  The last is the specification's \<^verbatim>\<open>DELETE\<close>, and the id it ends with is \<^verbatim>\<open>str\<close> of the
  value that \<^verbatim>\<open>cursor.lastrowid\<close> returned: the read is the call just before the
  \<^verbatim>\<open>DELETE\<close>, and comes right after the \<^verbatim>\<open>INSERT\<close> and its commit.
\<close>

theorem issued_statements:
  "\<exists>cs ps. snd (fix_node_on out cl node_name cfg w) = extend w cs ps
     \<and> (\<forall>before s after. cs = before @ [Execute s] @ after \<longrightarrow>
           s \<in> {spec_describe_sql, spec_alter_pk_sql, spec_alter_sql, spec_show_create_sql}
           \<or> (s = insert_sql \<and> squeeze s = squeeze spec_insert_sql)
           \<or> (\<exists>h. calls w @ before = h @ [Execute insert_sql, Commit, Lastrowid]
                  \<and> raises cl (h @ [Execute insert_sql, Commit]) Lastrowid = None
                  \<and> s = spec_delete_sql
                          (format_rowid (lastrowid_value cl (h @ [Execute insert_sql, Commit])))))"
proof -
  from issuesD [OF issues_fix_node, of out cl node_name cfg w]
  obtain cs ps
    where run: "snd (fix_node_on out cl node_name cfg w) = extend w cs ps"
      and all: "calls_ok (statement_of_routine cl) (calls w) cs"
    by blast
  have "s \<in> {spec_describe_sql, spec_alter_pk_sql, spec_alter_sql, spec_show_create_sql}
        \<or> (s = insert_sql \<and> squeeze s = squeeze spec_insert_sql)
        \<or> (\<exists>h. calls w @ before = h @ [Execute insert_sql, Commit, Lastrowid]
               \<and> raises cl (h @ [Execute insert_sql, Commit]) Lastrowid = None
               \<and> s = spec_delete_sql
                       (format_rowid (lastrowid_value cl (h @ [Execute insert_sql, Commit]))))"
    if "cs = before @ [Execute s] @ after" for before s after
  proof -
    from that all have "statement_of_routine cl (calls w @ before) (Execute s)"
      by (simp add: calls_ok_append)
    then show ?thesis
      unfolding statement_of_routine_def
      by (auto simp: script_texts_as_specified insert_sql_squeezed)
  qed
  with run show ?thesis by blast
qed

text \<open>
  The theorem at a node that needs the fix and accepts every statement: five of the six
  texts are passed, in this order, and for the \<^verbatim>\<open>DELETE\<close>, the twelfth call, the theorem
  gives that it carries the 7 that \<^verbatim>\<open>lastrowid\<close> returned.
\<close>

theorem issued_statements_witness:
  "(\<exists>cs ps. snd (fix_node_on accepting unfixed_client ''Central (Node 0)'' cfg0 world0) =
        extend world0 cs ps
     \<and> (\<forall>before s after. cs = before @ [Execute s] @ after \<longrightarrow>
           s \<in> {spec_describe_sql, spec_alter_pk_sql, spec_alter_sql, spec_show_create_sql}
           \<or> (s = insert_sql \<and> squeeze s = squeeze spec_insert_sql)
           \<or> (\<exists>h. calls world0 @ before = h @ [Execute insert_sql, Commit, Lastrowid]
                  \<and> raises unfixed_client (h @ [Execute insert_sql, Commit]) Lastrowid = None
                  \<and> s = spec_delete_sql
                          (format_rowid
                            (lastrowid_value unfixed_client (h @ [Execute insert_sql, Commit]))))))
   \<and> calls (snd (fix_node unfixed_client ''Central (Node 0)'' cfg0 world0)) =
       [Connect cfg0, Cursor, Execute spec_describe_sql, Fetchall, Execute spec_alter_pk_sql,
        Commit, Execute spec_show_create_sql, Fetchone, Execute insert_sql, Commit, Lastrowid,
        Execute (spec_delete_sql ''7''), Commit, CursorClose, ConnClose]
   \<and> (\<forall>h. lastrowid_value unfixed_client h = Some 7)
   \<and> (spec_delete_sql ''7''
         \<in> {spec_describe_sql, spec_alter_pk_sql, spec_alter_sql, spec_show_create_sql}
       \<or> (spec_delete_sql ''7'' = insert_sql
           \<and> squeeze (spec_delete_sql ''7'') = squeeze spec_insert_sql)
       \<or> (\<exists>h. calls world0 @
                 [Connect cfg0, Cursor, Execute spec_describe_sql, Fetchall,
                  Execute spec_alter_pk_sql, Commit, Execute spec_show_create_sql, Fetchone,
                  Execute insert_sql, Commit, Lastrowid]
                = h @ [Execute insert_sql, Commit, Lastrowid]
              \<and> raises unfixed_client (h @ [Execute insert_sql, Commit]) Lastrowid = None
              \<and> spec_delete_sql ''7'' =
                  spec_delete_sql
                    (format_rowid (lastrowid_value unfixed_client (h @ [Execute insert_sql, Commit])))))"
proof -
  let ?before = "[Connect cfg0, Cursor, Execute spec_describe_sql, Fetchall,
    Execute spec_alter_pk_sql, Commit, Execute spec_show_create_sql, Fetchone,
    Execute insert_sql, Commit, Lastrowid]"
  have "calls (snd (fix_node unfixed_client ''Central (Node 0)'' cfg0 world0)) =
       [Connect cfg0, Cursor, Execute describe_sql, Fetchall, Execute alter_pk_sql,
        Commit, Execute show_create_sql, Fetchone, Execute insert_sql, Commit, Lastrowid,
        Execute (delete_sql (Some 7)), Commit, CursorClose, ConnClose]"
    by (simp add: unfixed_client_def scripted_client_def world0_def unfixed_columns_def
        created_with_marker_def routine_defs action_defs)
  then have made: "calls (snd (fix_node unfixed_client ''Central (Node 0)'' cfg0 world0)) =
       ?before @ [Execute (spec_delete_sql ''7'')] @ [Commit, CursorClose, ConnClose]"
    by (simp add: script_texts_as_specified format_rowid_def str_int_def str_nat.simps)
  have rowid: "\<forall>h. lastrowid_value unfixed_client h = Some 7"
    by (simp add: unfixed_client_def scripted_client_def)
  note inst = issued_statements [of accepting unfixed_client "''Central (Node 0)''" cfg0 world0]
  then obtain cs ps
    where run: "snd (fix_node unfixed_client ''Central (Node 0)'' cfg0 world0) = extend world0 cs ps"
      and all: "\<And>before s after. cs = before @ [Execute s] @ after \<Longrightarrow>
           s \<in> {spec_describe_sql, spec_alter_pk_sql, spec_alter_sql, spec_show_create_sql}
           \<or> (s = insert_sql \<and> squeeze s = squeeze spec_insert_sql)
           \<or> (\<exists>h. calls world0 @ before = h @ [Execute insert_sql, Commit, Lastrowid]
                  \<and> raises unfixed_client (h @ [Execute insert_sql, Commit]) Lastrowid = None
                  \<and> s = spec_delete_sql
                          (format_rowid
                            (lastrowid_value unfixed_client (h @ [Execute insert_sql, Commit]))))"
    by blast
  from run made have "cs = ?before @ [Execute (spec_delete_sql ''7'')] @ [Commit, CursorClose, ConnClose]"
    by (simp add: world0_def)
  from all [OF this] have deleted:
    "spec_delete_sql ''7''
         \<in> {spec_describe_sql, spec_alter_pk_sql, spec_alter_sql, spec_show_create_sql}
       \<or> (spec_delete_sql ''7'' = insert_sql
           \<and> squeeze (spec_delete_sql ''7'') = squeeze spec_insert_sql)
       \<or> (\<exists>h. calls world0 @ ?before = h @ [Execute insert_sql, Commit, Lastrowid]
              \<and> raises unfixed_client (h @ [Execute insert_sql, Commit]) Lastrowid = None
              \<and> spec_delete_sql ''7'' =
                  spec_delete_sql
                    (format_rowid (lastrowid_value unfixed_client (h @ [Execute insert_sql, Commit]))))" .
  from made have "calls (snd (fix_node unfixed_client ''Central (Node 0)'' cfg0 world0)) =
       [Connect cfg0, Cursor, Execute spec_describe_sql, Fetchall, Execute spec_alter_pk_sql,
        Commit, Execute spec_show_create_sql, Fetchone, Execute insert_sql, Commit, Lastrowid,
        Execute (spec_delete_sql ''7''), Commit, CursorClose, ConnClose]"
    by simp
  with inst rowid deleted show ?thesis
    by (intro conjI)
qed

text \<open>
  Claim C8 as stated fails: the \<^verbatim>\<open>INSERT\<close> the routine passes on that node is not the
  text of the specification, which is never passed.
\<close>

theorem insert_text_differs:
  "Execute insert_sql \<in> set (calls (snd (fix_node unfixed_client ''Central (Node 0)'' cfg0 world0)))
   \<and> Execute spec_insert_sql \<notin>
       set (calls (snd (fix_node unfixed_client ''Central (Node 0)'' cfg0 world0)))
   \<and> insert_sql \<noteq> spec_insert_sql"
proof -
  have "calls (snd (fix_node unfixed_client ''Central (Node 0)'' cfg0 world0)) =
       [Connect cfg0, Cursor, Execute describe_sql, Fetchall, Execute alter_pk_sql,
        Commit, Execute show_create_sql, Fetchone, Execute insert_sql, Commit, Lastrowid,
        Execute (delete_sql (Some 7)), Commit, CursorClose, ConnClose]"
    by (simp add: unfixed_client_def scripted_client_def world0_def unfixed_columns_def
        created_with_marker_def routine_defs action_defs)
  moreover have "insert_sql \<noteq> spec_insert_sql"
    by (simp add: insert_sql_def spec_insert_sql_def)
  moreover have "spec_insert_sql \<notin> {describe_sql, alter_pk_sql, show_create_sql, delete_sql (Some 7)}"
    by (simp add: spec_insert_sql_def describe_sql_def alter_pk_sql_def show_create_sql_def
        delete_sql_def)
  ultimately show ?thesis by simp
qed

section \<open>C9: no row for the column\<close>

text \<open>
  Claim C9. When \<^verbatim>\<open>DESCRIBE users\<close> returns rows each of which has a name and none of
  which is named \<^verbatim>\<open>id\<close>, \<^verbatim>\<open>fix_node\<close> prints neither verdict of the check (lines 57
  and 62) and goes on: after the fetch its next call is the \<^verbatim>\<open>ALTER\<close> with
  \<^verbatim>\<open>PRIMARY KEY\<close>, announced by the text of line 65.
\<close>

theorem no_id_row_proceeds_to_alter:
  assumes "describe_output cl cfg (calls w) = Some columns"
      and "\<forall>col \<in> set columns. col \<noteq> [] \<and> col ! 0 \<noteq> PStr ''id''"
  shows "\<exists>cs ps.
           calls (snd (fix_node cl node_name cfg w)) =
             calls w @ [Connect cfg, Cursor, Execute describe_sql, Fetchall, Execute alter_pk_sql] @ cs
         \<and> printed (snd (fix_node cl node_name cfg w)) =
             printed w @ banner node_name @
               [''1. Checking current table structure...'', ''2. Applying AUTO_INCREMENT fix...'']
               @ ps"
proof -
  from assms(2) have "select_id_column columns = Inr []"
    by (rule select_id_column_none)
  then have "\<And>w'. check_id_column cl node_name columns w' = (Inr False, extend w' [] [])"
    by (rule check_id_column_skipped)
  from fix_node_goes_on [OF assms(1) this] obtain cs ps where
    "snd (fix_node cl node_name cfg w) =
       extend w ((inspect_calls cfg @ [Execute alter_pk_sql]) @ cs)
         ((banner node_name @ [''1. Checking current table structure...''] @ []
            @ [''2. Applying AUTO_INCREMENT fix...'']) @ ps)"
    by blast
  then have "calls (snd (fix_node cl node_name cfg w)) =
      calls w @ [Connect cfg, Cursor, Execute describe_sql, Fetchall, Execute alter_pk_sql] @ cs
    \<and> printed (snd (fix_node cl node_name cfg w)) =
      printed w @ banner node_name @
        [''1. Checking current table structure...'', ''2. Applying AUTO_INCREMENT fix...''] @ ps"
    by (simp add: inspect_calls_def)
  then show ?thesis by blast
qed

text \<open>The theorem at a node whose \<^verbatim>\<open>DESCRIBE\<close> output lists only \<^verbatim>\<open>firstname\<close>.\<close>

theorem no_id_row_proceeds_to_alter_witness:
  "describe_output no_id_client cfg0 (calls world0) =
     Some [[PStr ''firstname'', PBytes ''varchar(40)'', PStr ''YES'', PStr [], PNone, PStr []]]
   \<and> (\<exists>cs ps.
         calls (snd (fix_node no_id_client ''Central (Node 0)'' cfg0 world0)) =
           calls world0 @
             [Connect cfg0, Cursor, Execute describe_sql, Fetchall, Execute alter_pk_sql] @ cs
       \<and> printed (snd (fix_node no_id_client ''Central (Node 0)'' cfg0 world0)) =
           printed world0 @ banner ''Central (Node 0)'' @
             [''1. Checking current table structure...'', ''2. Applying AUTO_INCREMENT fix...'']
             @ ps)"
proof -
  let ?columns = "[[PStr ''firstname'', PBytes ''varchar(40)'', PStr ''YES'', PStr [], PNone, PStr []]]"
  have described: "describe_output no_id_client cfg0 (calls world0) = Some ?columns"
    by (simp add: no_id_client_def node_defs)
  have unnamed: "\<forall>col \<in> set ?columns. col \<noteq> [] \<and> col ! 0 \<noteq> PStr ''id''"
    by simp
  from no_id_row_proceeds_to_alter [OF described unnamed, of "''Central (Node 0)''"] described
  show ?thesis by blast
qed

section \<open>C10: a row for the column with fewer than six fields\<close>

text \<open>
  Claim C10. When the first row named \<^verbatim>\<open>id\<close> of the \<^verbatim>\<open>DESCRIBE\<close> output has fewer than
  six fields, line 55 takes the empty string as its extra attribute, the test of line 56 is
  false, and no \<^verbatim>\<open>IndexError\<close> is raised: \<^verbatim>\<open>fix_node\<close> prints that
  \<^verbatim>\<open>AUTO_INCREMENT\<close> is not set and goes on to the \<^verbatim>\<open>ALTER\<close>.
\<close>

theorem short_id_row_is_not_auto_increment:
  assumes "describe_output cl cfg (calls w) = Some columns"
      and "select_id_column columns = Inr (r # rs)"
      and "length r < 6"
  shows "extra_of r = PStr []
       \<and> reports_auto_increment r = Inr False
       \<and> (\<exists>cs ps.
             calls (snd (fix_node cl node_name cfg w)) =
               calls w @ [Connect cfg, Cursor, Execute describe_sql, Fetchall, Execute alter_pk_sql]
                 @ cs
           \<and> printed (snd (fix_node cl node_name cfg w)) =
               printed w @ banner node_name @
                 [''1. Checking current table structure...'',
                  ''   '' @ cross_mark @ '' AUTO_INCREMENT NOT set on '' @ node_name,
                  ''2. Applying AUTO_INCREMENT fix...''] @ ps)"
proof -
  from assms(3) have short: "extra_of r = PStr []" "reports_auto_increment r = Inr False"
    by (simp_all add: short_row_not_auto_increment)
  have "\<And>w'. check_id_column cl node_name columns w' =
      (Inr False,
       extend w' [] [''   '' @ cross_mark @ '' AUTO_INCREMENT NOT set on '' @ node_name])"
    by (rule check_id_column_not_set [OF assms(2) short(2)])
  from fix_node_goes_on [OF assms(1) this] obtain cs ps where
    "snd (fix_node cl node_name cfg w) =
       extend w ((inspect_calls cfg @ [Execute alter_pk_sql]) @ cs)
         ((banner node_name @ [''1. Checking current table structure...'']
            @ [''   '' @ cross_mark @ '' AUTO_INCREMENT NOT set on '' @ node_name]
            @ [''2. Applying AUTO_INCREMENT fix...'']) @ ps)"
    by blast
  then have "calls (snd (fix_node cl node_name cfg w)) =
      calls w @ [Connect cfg, Cursor, Execute describe_sql, Fetchall, Execute alter_pk_sql] @ cs
    \<and> printed (snd (fix_node cl node_name cfg w)) =
      printed w @ banner node_name @
        [''1. Checking current table structure...'',
         ''   '' @ cross_mark @ '' AUTO_INCREMENT NOT set on '' @ node_name,
         ''2. Applying AUTO_INCREMENT fix...''] @ ps"
    by (simp add: inspect_calls_def)
  with short show ?thesis by blast
qed

text \<open>The theorem at a node whose row for \<^verbatim>\<open>id\<close> has two fields.\<close>

theorem short_id_row_is_not_auto_increment_witness:
  "describe_output short_row_client cfg0 (calls world0) = Some [[PStr ''id'', PBytes ''int'']]
   \<and> select_id_column [[PStr ''id'', PBytes ''int'']] = Inr [[PStr ''id'', PBytes ''int'']]
   \<and> extra_of [PStr ''id'', PBytes ''int''] = PStr []
   \<and> reports_auto_increment [PStr ''id'', PBytes ''int''] = Inr False
   \<and> (\<exists>cs ps.
         calls (snd (fix_node short_row_client ''Central (Node 0)'' cfg0 world0)) =
           calls world0 @
             [Connect cfg0, Cursor, Execute describe_sql, Fetchall, Execute alter_pk_sql] @ cs
       \<and> printed (snd (fix_node short_row_client ''Central (Node 0)'' cfg0 world0)) =
           printed world0 @ banner ''Central (Node 0)'' @
             [''1. Checking current table structure...'',
              ''   '' @ cross_mark @ '' AUTO_INCREMENT NOT set on Central (Node 0)'',
              ''2. Applying AUTO_INCREMENT fix...''] @ ps)"
proof -
  have described:
    "describe_output short_row_client cfg0 (calls world0) = Some [[PStr ''id'', PBytes ''int'']]"
    by (simp add: short_row_client_def node_defs)
  have id_row:
    "select_id_column [[PStr ''id'', PBytes ''int'']] = Inr ([PStr ''id'', PBytes ''int''] # [])"
    by (simp add: py_index_def)
  have short: "length [PStr ''id'', PBytes ''int''] < 6"
    by simp
  from short_id_row_is_not_auto_increment
    [OF described id_row short, of "''Central (Node 0)''"] described id_row
  show ?thesis by simp
qed

end
